theory Spec2Isabelle
  imports Complex_Main "HOL-Library.AList"
begin

text \<open>
  A model of the views of the sensors.AFRICA API, version 2 (\<^verbatim>\<open>sensorsafrica/api/v2/views.py\<close>):
  the filter on the text of a sensor value, the resolution of the time window of a
  statistics request, the grouped aggregation the statistics view asks of the database,
  the shaping of its rows into the response, and the listing of the last active nodes.
  Exceptions are values of the type \<open>error\<close>, and a function that may raise returns a sum.
  What the code takes from its environment is a parameter: the clock, the rows of the
  database, the decimal digits the interpreter knows, and the functions of the database
  engine and of the framework.
\<close>

section \<open>Texts\<close>

text \<open>
  The texts of sensor values are lists of 8-bit characters (code points below 256).  Both
  views hand their pattern to the database (the fleet view through \<^verbatim>\<open>value__regex\<close>), and
  the digit class \<^verbatim>\<open>\d\<close> of its regular expressions is the ASCII digits in that range.
\<close>

definition is_digit :: "char \<Rightarrow> bool" where
  "is_digit c = (c \<in> set ''0123456789'')"

section \<open>The numeric value filter\<close>

text \<open>
  The operators the two patterns of \<^verbatim>\<open>views.py\<close> use: a literal character
  (\<^verbatim>\<open>\-\<close>, \<^verbatim>\<open>\.\<close>), the class \<^verbatim>\<open>\d\<close>, concatenation, \<^verbatim>\<open>?\<close> and \<^verbatim>\<open>+\<close>.
  \<open>Nul\<close>, \<open>Eps\<close> and \<open>Alt\<close> only arise as derivatives.
\<close>

datatype rx = Nul | Eps | Lit char | Digit | Alt rx rx | Cat rx rx | Opt rx | Plus rx

fun nullable :: "rx \<Rightarrow> bool" where
  "nullable Nul = False"
| "nullable Eps = True"
| "nullable (Lit c) = False"
| "nullable Digit = False"
| "nullable (Alt r s) = (nullable r \<or> nullable s)"
| "nullable (Cat r s) = (nullable r \<and> nullable s)"
| "nullable (Opt r) = True"
| "nullable (Plus r) = nullable r"

fun deriv :: "char \<Rightarrow> rx \<Rightarrow> rx" where
  "deriv c Nul = Nul"
| "deriv c Eps = Nul"
| "deriv c (Lit d) = (if c = d then Eps else Nul)"
| "deriv c Digit = (if is_digit c then Eps else Nul)"
| "deriv c (Alt r s) = Alt (deriv c r) (deriv c s)"
| "deriv c (Cat r s) =
     (if nullable r then Alt (Cat (deriv c r) s) (deriv c s) else Cat (deriv c r) s)"
| "deriv c (Opt r) = deriv c r"
| "deriv c (Plus r) = Cat (deriv c r) (Opt (Plus r))"

text \<open>
  Both patterns are anchored with \<^verbatim>\<open>^\<close> and \<^verbatim>\<open>$\<close>, so the operator \<^verbatim>\<open>~\<close> of the
  database (and the \<^verbatim>\<open>__regex\<close> lookup, which compiles to it) holds when the whole text
  is in the language of the pattern.
\<close>

definition matches :: "rx \<Rightarrow> string \<Rightarrow> bool" where
  "matches r s = nullable (fold deriv s r)"

text \<open>
  \<^verbatim>\<open>AND v.value ~ '^\\-?\\d+(\\.?\\d+)?$'\<close> in \<^verbatim>\<open>SensorDataStatView.get_queryset\<close>
  (the Python literal doubles each backslash).
\<close>

definition stats_value_regex :: rx where
  "stats_value_regex =
     Cat (Opt (Lit CHR ''-'')) (Cat (Plus Digit) (Opt (Cat (Opt (Lit CHR ''.'')) (Plus Digit))))"

text \<open>\<^verbatim>\<open>Q(value__regex=r"^\-?\d+(\.?\d+)?$")\<close> in \<^verbatim>\<open>NodesView.list\<close>.\<close>

definition nodes_value_regex :: rx where
  "nodes_value_regex =
     Cat (Opt (Lit CHR ''-'')) (Cat (Plus Digit) (Opt (Cat (Opt (Lit CHR ''.'')) (Plus Digit))))"

text \<open>The pattern of the specification, \<^verbatim>\<open>^-?\d+(\.\d+)?$\<close>: the dot is not optional.\<close>

definition spec_value_regex :: rx where
  "spec_value_regex =
     Cat (Opt (Lit CHR ''-'')) (Cat (Plus Digit) (Opt (Cat (Lit CHR ''.'') (Plus Digit))))"

text \<open>
  The specification in words: an optional leading minus, one or more digits, optionally
  a dot followed by one or more digits.
\<close>

definition digits1 :: "string \<Rightarrow> bool" where
  "digits1 s = (s \<noteq> [] \<and> list_all is_digit s)"

definition signed_decimal :: "string \<Rightarrow> bool" where
  "signed_decimal t =
     (\<exists>sg ip fr. t = sg @ ip @ fr \<and> (sg = [] \<or> sg = ''-'') \<and> digits1 ip \<and>
        (fr = [] \<or> (\<exists>fd. fr = CHR ''.'' # fd \<and> digits1 fd)))"

subsection \<open>The language of a pattern\<close>

definition conc :: "string set \<Rightarrow> string set \<Rightarrow> string set" where
  "conc A B = {u @ v | u v. u \<in> A \<and> v \<in> B}"

inductive_set rep1 :: "string set \<Rightarrow> string set" for A :: "string set" where
  once: "w \<in> A \<Longrightarrow> w \<in> rep1 A"
| more: "u \<in> A \<Longrightarrow> v \<in> rep1 A \<Longrightarrow> u @ v \<in> rep1 A"

fun lang :: "rx \<Rightarrow> string set" where
  "lang Nul = {}"
| "lang Eps = {[]}"
| "lang (Lit c) = {[c]}"
| "lang Digit = {[c] | c. is_digit c}"
| "lang (Alt r s) = lang r \<union> lang s"
| "lang (Cat r s) = conc (lang r) (lang s)"
| "lang (Opt r) = insert [] (lang r)"
| "lang (Plus r) = rep1 (lang r)"

section \<open>Python values\<close>

text \<open>
  The exceptions that can leave the code of \<^verbatim>\<open>views.py\<close>.  \<open>ValidationError\<close> carries
  the field and the message of its detail.  \<open>NotFound\<close> is the framework's 404; it is
  listed so that results can be compared with it, and no path of \<^verbatim>\<open>views.py\<close> raises it.
\<close>

datatype error =
    ValidationError string string
  | ValueError
  | KeyError string
  | OverflowError
  | AttributeError
  | ProgrammingError
  | DataError
  | DoesNotExist
  | NotFound

text \<open>
  A query parameter is \<open>None\<close> when the request does not carry it.  The tests
  \<^verbatim>\<open>if from_date\<close>, \<^verbatim>\<open>if to_date\<close>, \<^verbatim>\<open>if value_type_to_filter\<close>, \<^verbatim>\<open>if city_names\<close>
  are Python truth tests: \<open>None\<close> and the empty text are false.
\<close>

definition truthy :: "'a list option \<Rightarrow> bool" where
  "truthy p = (case p of None \<Rightarrow> False | Some s \<Rightarrow> s \<noteq> [])"

definition text_of :: "'a list option \<Rightarrow> 'a list" where
  "text_of p = (case p of None \<Rightarrow> [] | Some s \<Rightarrow> s)"

text \<open>\<^verbatim>\<open>str.upper\<close> on the letters a to z; other characters are left as they are.\<close>

definition upper_char :: "char \<Rightarrow> char" where
  "upper_char c =
     (case map_of (zip ''abcdefghijklmnopqrstuvwxyz'' ''ABCDEFGHIJKLMNOPQRSTUVWXYZ'') c of
        None \<Rightarrow> c | Some u \<Rightarrow> u)"

definition upper :: "string \<Rightarrow> string" where
  "upper s = map upper_char s"

text \<open>\<^verbatim>\<open>s.split(sep)\<close> for a one-character separator: empty fields are kept.\<close>

fun split :: "char \<Rightarrow> string \<Rightarrow> string list" where
  "split sep [] = [[]]"
| "split sep (c # cs) =
     (if c = sep then [] # split sep cs
      else (case split sep cs of [] \<Rightarrow> [[c]] | x # xs \<Rightarrow> (c # x) # xs))"

text \<open>
  The texts of dates are read by functions of Python that know every decimal digit of
  Unicode, so a date text is a list of code points.  \<open>code_points\<close> gives the code points of
  a text of 8-bit characters.
\<close>

type_synonym utext = "int list"

definition code_points :: "string \<Rightarrow> utext" where
  "code_points s = map of_char s"

text \<open>
  The decimal digits of Unicode (category Nd) come in runs of ten consecutive code
  points, for the digits 0 to 9 in order.  Which runs exist depends on the Unicode
  database of the interpreter; \<open>zeros\<close> lists the first code point of each run beyond
  ASCII, and the run of ASCII starts at 48.  \<open>decimal zeros c\<close> is the value of the digit
  \<open>c\<close>, if \<open>c\<close> is a decimal digit.
\<close>

definition decimal :: "int list \<Rightarrow> int \<Rightarrow> int option" where
  "decimal zeros c =
     (case filter (\<lambda>z. z \<le> c \<and> c < z + 10) (48 # zeros) of
        [] \<Rightarrow> None | z # _ \<Rightarrow> Some (c - z))"

definition is_decimal :: "int list \<Rightarrow> int \<Rightarrow> bool" where
  "is_decimal zeros c = (decimal zeros c \<noteq> None)"

definition digit_value :: "int list \<Rightarrow> int \<Rightarrow> int" where
  "digit_value zeros c = (case decimal zeros c of None \<Rightarrow> 0 | Some v \<Rightarrow> v)"

text \<open>
  \<^verbatim>\<open>int(s)\<close> on a text of decimal digits with blanks around it, which \<^verbatim>\<open>int\<close> strips.  The
  texts that reach it are the groups of a match of the date pattern below, made of
  decimal digits and, for a day, of a blank in front of one digit.
\<close>

definition py_int :: "int list \<Rightarrow> utext \<Rightarrow> int" where
  "py_int zeros s = foldl (\<lambda>n c. 10 * n + digit_value zeros c) 0 (filter (\<lambda>c. c \<noteq> 32) s)"

section \<open>Dates and times\<close>

text \<open>
  A \<^verbatim>\<open>datetime\<close> in UTC is the number of microseconds since the midnight that starts
  day 0 of the proleptic Gregorian ordinal (day 1 is 0001-01-01, the last day is
  9999-12-31, ordinal 3652059).  Python's \<^verbatim>\<open>datetime\<close> does its arithmetic on the ordinal
  in the same way.
\<close>

type_synonym datetime = int

definition us_per_day :: int where
  "us_per_day = 86400000000"

definition max_ordinal :: int where
  "max_ordinal = 3652059"

definition is_leap :: "int \<Rightarrow> bool" where
  "is_leap y = (y mod 4 = 0 \<and> (y mod 100 \<noteq> 0 \<or> y mod 400 = 0))"

definition days_before_year :: "int \<Rightarrow> int" where
  "days_before_year y = (let y1 = y - 1 in y1 * 365 + y1 div 4 - y1 div 100 + y1 div 400)"

definition days_in_month :: "int \<Rightarrow> int \<Rightarrow> int" where
  "days_in_month y m =
     (if m = 2 \<and> is_leap y then 29
      else [31, 28, 31, 30, 31, 30, 31, 31, 30, 31, 30, 31] ! nat (m - 1))"

definition days_before_month :: "int \<Rightarrow> int \<Rightarrow> int" where
  "days_before_month y m =
     [0, 31, 59, 90, 120, 151, 181, 212, 243, 273, 304, 334] ! nat (m - 1)
       + (if m > 2 \<and> is_leap y then 1 else 0)"

definition ymd2ord :: "int \<Rightarrow> int \<Rightarrow> int \<Rightarrow> int" where
  "ymd2ord y m d = days_before_year y + days_before_month y m + d"

text \<open>
  \<^verbatim>\<open>datetime(y, m, d)\<close> at midnight: the constructor checks the fields and raises
  \<^verbatim>\<open>ValueError\<close> outside the calendar.
\<close>

definition midnight :: "int \<Rightarrow> int \<Rightarrow> int \<Rightarrow> error + datetime" where
  "midnight y m d =
     (if 1 \<le> y \<and> y \<le> 9999 \<and> 1 \<le> m \<and> m \<le> 12 \<and> 1 \<le> d \<and> d \<le> days_in_month y m
      then Inr (ymd2ord y m d * us_per_day)
      else Inl ValueError)"

definition hours :: "int \<Rightarrow> int" where
  "hours h = h * 3600000000"

definition minutes :: "int \<Rightarrow> int" where
  "minutes m = m * 60000000"

text \<open>
  \<^verbatim>\<open>datetime + timedelta\<close>: the result must fall on an ordinal day from 1 to
  \<open>max_ordinal\<close>, otherwise \<^verbatim>\<open>OverflowError\<close> is raised.
\<close>

definition add_timedelta :: "datetime \<Rightarrow> int \<Rightarrow> error + datetime" where
  "add_timedelta t delta =
     (let r = t + delta; days = r div us_per_day
      in if 0 < days \<and> days \<le> max_ordinal then Inr r else Inl OverflowError)"

subsection \<open>\<^verbatim>\<open>datetime.strptime(text, "%Y-%m-%d")\<close>\<close>

text \<open>
  The standard library compiles the format to the pattern
  \<^verbatim>\<open>(?P<Y>\d\d\d\d)-(?P<m>1[0-2]|0[1-9]|[1-9])-(?P<d>3[0-1]|[1-2]\d|0[1-9]|[1-9]| [1-9])\<close>,
  matches it at the start of the text, and raises \<^verbatim>\<open>ValueError\<close> when there is no match,
  when text remains after the match, or when the fields are not a calendar date.
  In a pattern on texts \<^verbatim>\<open>\d\<close> is any decimal digit of Unicode, while a class such as
  \<^verbatim>\<open>[0-2]\<close> is a range of code points.  Each group below returns its possible matches,
  with the remaining text, in the order in which the backtracking matcher tries them; the
  first complete match is the one \<^verbatim>\<open>re.match\<close> returns.
\<close>

definition is_char :: "char \<Rightarrow> int \<Rightarrow> bool" where
  "is_char x c = (c = of_char x)"

definition in_range :: "char \<Rightarrow> char \<Rightarrow> int \<Rightarrow> bool" where
  "in_range lo hi c = (of_char lo \<le> c \<and> c \<le> of_char hi)"

fun one_char :: "(int \<Rightarrow> bool) \<Rightarrow> utext \<Rightarrow> (utext \<times> utext) list" where
  "one_char P (a # rest) = (if P a then [([a], rest)] else [])"
| "one_char P [] = []"

fun two_chars :: "(int \<Rightarrow> bool) \<Rightarrow> (int \<Rightarrow> bool) \<Rightarrow> utext \<Rightarrow> (utext \<times> utext) list" where
  "two_chars P Q (a # b # rest) = (if P a \<and> Q b then [([a, b], rest)] else [])"
| "two_chars P Q [a] = []"
| "two_chars P Q [] = []"

fun re_Y :: "int list \<Rightarrow> utext \<Rightarrow> (utext \<times> utext) list" where
  "re_Y zeros (a # b # c # d # rest) =
     (if is_decimal zeros a \<and> is_decimal zeros b \<and> is_decimal zeros c \<and> is_decimal zeros d
      then [([a, b, c, d], rest)] else [])"
| "re_Y zeros [a, b, c] = []"
| "re_Y zeros [a, b] = []"
| "re_Y zeros [a] = []"
| "re_Y zeros [] = []"

definition re_m :: "utext \<Rightarrow> (utext \<times> utext) list" where
  "re_m s =
     two_chars (is_char CHR ''1'') (in_range CHR ''0'' CHR ''2'') s
     @ two_chars (is_char CHR ''0'') (in_range CHR ''1'' CHR ''9'') s
     @ one_char (in_range CHR ''1'' CHR ''9'') s"

definition re_d :: "int list \<Rightarrow> utext \<Rightarrow> (utext \<times> utext) list" where
  "re_d zeros s =
     two_chars (is_char CHR ''3'') (in_range CHR ''0'' CHR ''1'') s
     @ two_chars (in_range CHR ''1'' CHR ''2'') (is_decimal zeros) s
     @ two_chars (is_char CHR ''0'') (in_range CHR ''1'' CHR ''9'') s
     @ one_char (in_range CHR ''1'' CHR ''9'') s
     @ two_chars (is_char CHR '' '') (in_range CHR ''1'' CHR ''9'') s"

definition re_dash :: "utext \<Rightarrow> (utext \<times> utext) list" where
  "re_dash s = one_char (is_char CHR ''-'') s"

definition format_regex_match ::
  "int list \<Rightarrow> utext \<Rightarrow> ((utext \<times> utext \<times> utext) \<times> utext) list" where
  "format_regex_match zeros s =
     concat (map (\<lambda>(y, r1).
       concat (map (\<lambda>(_, r2).
         concat (map (\<lambda>(m, r3).
           concat (map (\<lambda>(_, r4).
             map (\<lambda>(d, r5). ((y, m, d), r5)) (re_d zeros r4))
           (re_dash r3)))
         (re_m r2)))
       (re_dash r1)))
     (re_Y zeros s))"

definition strptime :: "int list \<Rightarrow> utext \<Rightarrow> error + datetime" where
  "strptime zeros data_string =
     (case format_regex_match zeros data_string of
        [] \<Rightarrow> Inl ValueError
      | ((y, m, d), rest) # _ \<Rightarrow>
          if rest \<noteq> [] then Inl ValueError
          else midnight (py_int zeros y) (py_int zeros m) (py_int zeros d))"

text \<open>\<^verbatim>\<open>timezone.now().replace(hour=0, minute=0, second=0, microsecond=0)\<close>, given the clock.\<close>

definition beginning_of_today :: "datetime \<Rightarrow> datetime" where
  "beginning_of_today now = now - now mod us_per_day"

definition end_of_today :: "datetime \<Rightarrow> error + datetime" where
  "end_of_today now = add_timedelta (beginning_of_today now) (hours 24)"

definition beginning_of_day :: "int list \<Rightarrow> utext \<Rightarrow> error + datetime" where
  "beginning_of_day zeros from_date = strptime zeros from_date"

definition end_of_day :: "int list \<Rightarrow> utext \<Rightarrow> error + datetime" where
  "end_of_day zeros to_date =
     (case beginning_of_day zeros to_date of
        Inl e \<Rightarrow> Inl e
      | Inr t \<Rightarrow> add_timedelta t (hours 24))"

text \<open>Only \<^verbatim>\<open>ValueError\<close> is caught and turned into the \<^verbatim>\<open>ValidationError\<close> of the caller.\<close>

definition validate_date :: "int list \<Rightarrow> utext \<Rightarrow> error \<Rightarrow> error + unit" where
  "validate_date zeros date_text err =
     (case strptime zeros date_text of
        Inl ValueError \<Rightarrow> Inl err
      | Inl e \<Rightarrow> Inl e
      | Inr _ \<Rightarrow> Inr ())"

section \<open>The historical statistics view\<close>

text \<open>\<^verbatim>\<open>value_types = {"air": ["P1", "P2", "humidity", "temperature"]}\<close>\<close>

definition value_types :: "string \<rightharpoonup> string list" where
  "value_types = [''air'' \<mapsto> [''P1'', ''P2'', ''humidity'', ''temperature'']]"

text \<open>
  The tags a stored \<^verbatim>\<open>SensorDataValue.value_type\<close> may take: the choices of migration
  \<^verbatim>\<open>0017_auto_20160416_1803\<close>.
\<close>

definition value_type_choices :: "string list" where
  "value_type_choices =
     [''P1'', ''P2'', ''durP1'', ''durP2'', ''ratioP1'', ''ratioP2'', ''samples'',
      ''min_micro'', ''max_micro'', ''temperature'', ''humidity'', ''pressure'', ''altitude'',
      ''pressure_sealevel'', ''brightness'', ''dust_density'', ''vo_raw'', ''voltage'',
      ''P10'', ''P25'', ''durP10'', ''durP25'', ''ratioP10'', ''ratioP25'', ''door_state'']"

text \<open>The path argument and the query parameters the view reads.\<close>

record request =
  sensor_type :: string
  city_param :: "string option"
  from_param :: "utext option"
  to_param :: "utext option"
  avg_param :: "string option"
  value_type_param :: "string option"

text \<open>
  A row of \<^verbatim>\<open>sensors_sensordatavalue v\<close> joined with its \<^verbatim>\<open>sensors_sensordata sd\<close> and
  \<^verbatim>\<open>sensors_sensorlocation sl\<close>.
\<close>

record reading =
  v_value_type :: string
  v_value :: string
  sd_timestamp :: datetime
  sl_city :: string

text \<open>
  The database: the joined rows, and the number of statements the view has sent to it.
\<close>

record db =
  readings :: "reading list"
  executed :: nat

text \<open>
  What belongs to the database engine is a parameter here:
  \<^verbatim>\<open>DATE_TRUNC(unit, timestamp)\<close>, which is \<open>None\<close> for a unit the engine does not know;
  the text of a timestamp in \<^verbatim>\<open>"value" || ' ' || sd."timestamp"\<close>; and the arithmetic of
  the type \<^verbatim>\<open>float\<close>.  A value of that type is a double, given here by the rational it
  is.  \<^verbatim>\<open>CAST("value" as float)\<close> rounds the decimal of the text to a double and is an
  error (\<open>None\<close>) for a text out of the range of the type; the sum of doubles, the
  division of a double by a count and the average of doubles round as well and are
  errors where the engine reports an overflow or an underflow.
\<close>

record engine =
  date_trunc :: "string \<Rightarrow> datetime \<Rightarrow> datetime option"
  timestamp_text :: "datetime \<Rightarrow> string"
  cast_float :: "string \<Rightarrow> rat option"
  float_sum :: "rat list \<Rightarrow> rat option"
  float_div :: "rat \<Rightarrow> nat \<Rightarrow> rat option"
  float_avg :: "rat list \<Rightarrow> rat option"

text \<open>
  The values of a list when every one is there, \<open>None\<close> when one is missing; and the results
  of a list when every one is a result, the first error otherwise.
\<close>

fun every :: "'a option list \<Rightarrow> 'a list option" where
  "every [] = Some []"
| "every (x # xs) =
     (case x of None \<Rightarrow> None
      | Some v \<Rightarrow> (case every xs of None \<Rightarrow> None | Some vs \<Rightarrow> Some (v # vs)))"

fun collect :: "(error + 'a) list \<Rightarrow> error + 'a list" where
  "collect [] = Inr []"
| "collect (x # xs) =
     (case x of Inl e \<Rightarrow> Inl e
      | Inr v \<Rightarrow> (case collect xs of Inl e \<Rightarrow> Inl e | Inr vs \<Rightarrow> Inr (v # vs)))"

record summary =
  average :: rat
  minimum :: rat
  maximum :: rat
  start_datetime :: datetime
  end_datetime :: datetime

record data_stat = summary +
  city_name :: string
  value_type :: string
  debug :: string

text \<open>Lines 119 to 127: the checks on \<^verbatim>\<open>from\<close> and \<^verbatim>\<open>to\<close>.\<close>

definition check_dates :: "int list \<Rightarrow> request \<Rightarrow> error + unit" where
  "check_dates zeros req =
     (if truthy (to_param req) \<and> \<not> truthy (from_param req)
      then Inl (ValidationError ''from'' ''Must be provide along with to query'')
      else
        (case (if truthy (from_param req)
               then validate_date zeros (text_of (from_param req))
                      (ValidationError ''from'' ''Must be a date in the format Y-m-d.'')
               else Inr ()) of
           Inl e \<Rightarrow> Inl e
         | Inr _ \<Rightarrow>
             (if truthy (to_param req)
              then validate_date zeros (text_of (to_param req))
                     (ValidationError ''to'' ''Must be a date in the format Y-m-d.'')
              else Inr ())))"

text \<open>
  Lines 129 to 136.  \<^verbatim>\<open>value_types[sensor_type]\<close> raises \<^verbatim>\<open>KeyError\<close> for a key that is
  not in the dictionary.  The intersection of the two sets is kept as a list without
  repetitions; the order in which Python iterates over the set is not fixed, and the
  \<^verbatim>\<open>IN\<close> of the query does not depend on it.
\<close>

definition filter_value_types :: "request \<Rightarrow> error + string list" where
  "filter_value_types req =
     (case value_types (sensor_type req) of
        None \<Rightarrow> Inl (KeyError (sensor_type req))
      | Some allowed \<Rightarrow>
          if truthy (value_type_param req)
          then Inr (filter (\<lambda>x. x \<in> set (map upper allowed))
                      (remdups (split CHR '','' (upper (text_of (value_type_param req))))))
          else Inr allowed)"

text \<open>Lines 138 to 148: the window, given the clock \<^verbatim>\<open>timezone.now()\<close>.\<close>

definition resolve_window ::
  "int list \<Rightarrow> datetime \<Rightarrow> request \<Rightarrow> error + (datetime \<times> datetime)" where
  "resolve_window zeros now req =
     (if \<not> truthy (from_param req) \<and> \<not> truthy (to_param req)
      then (case add_timedelta now (- hours 24) of
              Inl e \<Rightarrow> Inl e
            | Inr from_date \<Rightarrow> Inr (from_date, now))
      else if \<not> truthy (to_param req)
      then (case beginning_of_day zeros (text_of (from_param req)) of
              Inl e \<Rightarrow> Inl e
            | Inr from_date \<Rightarrow> Inr (from_date, beginning_of_today now))
      else (case beginning_of_day zeros (text_of (from_param req)) of
              Inl e \<Rightarrow> Inl e
            | Inr from_date \<Rightarrow>
                (case end_of_day zeros (text_of (to_param req)) of
                   Inl e \<Rightarrow> Inl e
                 | Inr to_date \<Rightarrow> Inr (from_date, to_date))))"

text \<open>
  The \<^verbatim>\<open>WHERE\<close> clause of the statement.  The city condition is part of the text only
  when \<^verbatim>\<open>len(city_names) > 0\<close>.
\<close>

definition where_clause ::
  "string list \<Rightarrow> string list \<Rightarrow> datetime \<Rightarrow> datetime \<Rightarrow> reading \<Rightarrow> bool" where
  "where_clause wanted_types city_names from_date to_date r =
     (v_value_type r \<in> set wanted_types
      \<and> matches stats_value_regex (v_value r)
      \<and> (if length city_names > 0 then sl_city r \<in> set city_names else True)
      \<and> sd_timestamp r \<ge> from_date
      \<and> sd_timestamp r \<le> to_date)"

text \<open>
  \<^verbatim>\<open>GROUP BY DATE_TRUNC(trunc, sd."timestamp"), v.value_type, sl.city\<close>: one group for
  each key that occurs among the selected rows.  SQL leaves the order of the groups
  open; here they come in the order \<open>remdups\<close> gives the keys.
\<close>

definition group_key :: "(datetime \<Rightarrow> datetime) \<Rightarrow> reading \<Rightarrow> datetime \<times> string \<times> string" where
  "group_key trunc r = (trunc (sd_timestamp r), v_value_type r, sl_city r)"

definition group_by :: "('a \<Rightarrow> 'k) \<Rightarrow> 'a list \<Rightarrow> ('k \<times> 'a list) list" where
  "group_by key rows = map (\<lambda>k. (k, filter (\<lambda>r. key r = k) rows)) (remdups (map key rows))"

text \<open>\<^verbatim>\<open>COUNT(*)\<close> of a group.\<close>

definition count_star :: "'a list \<Rightarrow> nat" where
  "count_star g = length g"

fun string_agg :: "string \<Rightarrow> string list \<Rightarrow> string" where
  "string_agg sep [] = []"
| "string_agg sep [x] = x"
| "string_agg sep (x # y # ys) = x @ sep @ string_agg sep (y # ys)"

text \<open>
  The \<^verbatim>\<open>SELECT\<close> list, computed on one group.  An error of the arithmetic of the engine
  is \<^verbatim>\<open>DataError\<close>.
\<close>

definition select_row ::
  "engine \<Rightarrow> (datetime \<times> string \<times> string) \<times> reading list \<Rightarrow> error + data_stat" where
  "select_row eng kg =
     (case kg of ((bucket, vt, c), g) \<Rightarrow>
        (case every (map (\<lambda>r. cast_float eng (v_value r)) g) of
           None \<Rightarrow> Inl DataError
         | Some xs \<Rightarrow>
        (case float_sum eng xs of
           None \<Rightarrow> Inl DataError
         | Some summed \<Rightarrow>
        (case float_div eng summed (count_star g) of
           None \<Rightarrow> Inl DataError
         | Some avg \<Rightarrow>
             Inr \<lparr> average = avg,
                   minimum = Min (set xs),
                   maximum = Max (set xs),
                   start_datetime = Min (set (map sd_timestamp g)),
                   end_datetime = Max (set (map sd_timestamp g)),
                   city_name = c,
                   value_type = vt,
                   debug = string_agg '',''
                             (map (\<lambda>r. v_value r @ '' '' @ timestamp_text eng (sd_timestamp r))
                                g) \<rparr>))))"

text \<open>The rows of the database that reach the aggregates, and their groups.\<close>

definition selected_rows ::
  "string list \<Rightarrow> string list \<Rightarrow> datetime \<Rightarrow> datetime \<Rightarrow> reading list \<Rightarrow> reading list" where
  "selected_rows wanted_types city_names from_date to_date rows =
     filter (where_clause wanted_types city_names from_date to_date) rows"

definition stat_groups ::
  "(datetime \<Rightarrow> datetime) \<Rightarrow> string list \<Rightarrow> string list \<Rightarrow> datetime \<Rightarrow> datetime \<Rightarrow>
     reading list \<Rightarrow> ((datetime \<times> string \<times> string) \<times> reading list) list" where
  "stat_groups trunc wanted_types city_names from_date to_date rows =
     group_by (group_key trunc) (selected_rows wanted_types city_names from_date to_date rows)"

text \<open>
  \<^verbatim>\<open>cursor.execute\<close> and \<^verbatim>\<open>cursor.fetchall\<close>.  The statement is sent, so it is counted.
  An empty tuple is rendered as \<^verbatim>\<open>()\<close>, and \<^verbatim>\<open>IN ()\<close> is a syntax error of the database;
  a unit that \<^verbatim>\<open>DATE_TRUNC\<close> does not know is an error as soon as a selected row is
  truncated, and so is an error in the row of a group.
\<close>

definition cursor_execute ::
  "engine \<Rightarrow> db \<Rightarrow> string list \<Rightarrow> string list \<Rightarrow> datetime \<Rightarrow> datetime \<Rightarrow> string \<Rightarrow>
     (error + data_stat list) \<times> db" where
  "cursor_execute eng d wanted_types city_names from_date to_date trunc =
     (let d' = d\<lparr>executed := executed d + 1\<rparr>;
          rows = selected_rows wanted_types city_names from_date to_date (readings d)
      in if wanted_types = [] then (Inl ProgrammingError, d')
         else if list_ex (\<lambda>r. date_trunc eng trunc (sd_timestamp r) = None) rows
         then (Inl DataError, d')
         else (collect (map (select_row eng)
                         (stat_groups (\<lambda>t. the (date_trunc eng trunc t))
                            wanted_types city_names from_date to_date (readings d))), d'))"

text \<open>
  \<^verbatim>\<open>SensorDataStatView.get_queryset\<close>, given the decimal digits of the interpreter, the
  database engine, the clock and the database.
\<close>

definition get_queryset ::
  "int list \<Rightarrow> engine \<Rightarrow> datetime \<Rightarrow> db \<Rightarrow> request \<Rightarrow> (error + data_stat list) \<times> db" where
  "get_queryset zeros eng now d req =
     (let avg = (case avg_param req of None \<Rightarrow> ''day'' | Some a \<Rightarrow> a)
      in case check_dates zeros req of
           Inl e \<Rightarrow> (Inl e, d)
         | Inr _ \<Rightarrow>
        (case filter_value_types req of
           Inl e \<Rightarrow> (Inl e, d)
         | Inr fvt \<Rightarrow>
        (case resolve_window zeros now req of
           Inl e \<Rightarrow> (Inl e, d)
         | Inr (from_date, to_date) \<Rightarrow>
             (let city_names = (if truthy (city_param req)
                                then split CHR '','' (text_of (city_param req)) else [])
              in cursor_execute eng d fvt city_names from_date to_date avg))))"

section \<open>The result shaper\<close>

text \<open>
  A Python dictionary keeps its keys in insertion order, and assigning to a key that is
  present keeps its place: an association list under \<open>AList.update\<close>.  The dictionary of a
  city holds the text of its name under \<^verbatim>\<open>"city_name"\<close> and, under each value type,
  a list of summaries (\<^verbatim>\<open>[]\<close>, filled by \<^verbatim>\<open>append\<close>) or one dictionary (\<^verbatim>\<open>{}\<close>, filled
  by \<^verbatim>\<open>update\<close>, which writes the same five keys each time; \<open>Obj None\<close> is the empty one).
\<close>

datatype entry = Text string | Seq "summary list" | Obj "summary option"

type_synonym city_dict = "(string \<times> entry) list"

type_synonym results_dict = "(string \<times> city_dict) list"

definition summary_of :: "data_stat \<Rightarrow> summary" where
  "summary_of data_stat =
     \<lparr> average = average data_stat,
       minimum = minimum data_stat,
       maximum = maximum data_stat,
       start_datetime = start_datetime data_stat,
       end_datetime = end_datetime data_stat \<rparr>"

text \<open>
  \<^verbatim>\<open>getattr(values, "append" if from_date else "update")(...)\<close>: a list has no \<^verbatim>\<open>update\<close>,
  a dictionary no \<^verbatim>\<open>append\<close>, and a text neither: \<^verbatim>\<open>AttributeError\<close>.
\<close>

definition include_result :: "bool \<Rightarrow> entry \<Rightarrow> summary \<Rightarrow> error + entry" where
  "include_result from_date values s =
     (if from_date
      then (case values of Seq xs \<Rightarrow> Inr (Seq (xs @ [s])) | _ \<Rightarrow> Inl AttributeError)
      else (case values of Obj _ \<Rightarrow> Inr (Obj (Some s)) | _ \<Rightarrow> Inl AttributeError))"

text \<open>The body of the loop of \<^verbatim>\<open>CustomPagination.get_paginated_response\<close>.\<close>

definition shape_row :: "bool \<Rightarrow> results_dict \<Rightarrow> data_stat \<Rightarrow> error + results_dict" where
  "shape_row from_date results data_stat =
     (let city = city_name data_stat;
          vt = value_type data_stat;
          fresh = (if from_date then Seq [] else Obj None);
          results1 = (if map_of results city = None
                      then AList.update city
                             (AList.update vt fresh [(''city_name'', Text city)]) results
                      else results)
      in case map_of results1 city of
           None \<Rightarrow> Inl (KeyError city)
         | Some cd \<Rightarrow>
             (let cd1 = (if map_of cd vt = None then AList.update vt fresh cd else cd)
              in case map_of cd1 vt of
                   None \<Rightarrow> Inl (KeyError vt)
                 | Some values \<Rightarrow>
                     (case include_result from_date values (summary_of data_stat) of
                        Inl e \<Rightarrow> Inl e
                      | Inr values' \<Rightarrow>
                          Inr (AList.update city (AList.update vt values' cd1) results1))))"

fun shape_rows :: "bool \<Rightarrow> results_dict \<Rightarrow> data_stat list \<Rightarrow> error + results_dict" where
  "shape_rows from_date results [] = Inr results"
| "shape_rows from_date results (data_stat # rest) =
     (case shape_row from_date results data_stat of
        Inl e \<Rightarrow> Inl e
      | Inr results' \<Rightarrow> shape_rows from_date results' rest)"

record response =
  next_link :: "string option"
  previous_link :: "string option"
  count :: nat
  results :: "city_dict list"

text \<open>
  \<^verbatim>\<open>get_paginated_response\<close>: the two links are the paginator's; \<^verbatim>\<open>from_date\<close> is the
  \<^verbatim>\<open>from\<close> parameter of the request, tested for truth.
\<close>

definition get_paginated_response ::
  "request \<Rightarrow> string option \<Rightarrow> string option \<Rightarrow> data_stat list \<Rightarrow> error + response" where
  "get_paginated_response req nxt prv data_stats =
     (case shape_rows (truthy (from_param req)) [] data_stats of
        Inl e \<Rightarrow> Inl e
      | Inr res \<Rightarrow>
          Inr \<lparr> next_link = nxt, previous_link = prv,
                count = length (map fst res), results = map snd res \<rparr>)"

text \<open>What the shaped result holds for a city and a value type.\<close>

definition lookup :: "results_dict \<Rightarrow> string \<Rightarrow> string \<Rightarrow> entry option" where
  "lookup res city vt = (case map_of res city of None \<Rightarrow> None | Some cd \<Rightarrow> map_of cd vt)"

section \<open>The fleet status view\<close>

record sensor_location =
  location_id :: int
  location_name :: string
  longitude :: rat
  latitude :: rat
  location_city :: string

text \<open>A node with the identifiers of the sensors that refer to it.\<close>

record node =
  node_id :: int
  uid :: string
  sensors :: "int list"
  node_location :: sensor_location

record last_active_node =
  la_node :: node
  la_location :: sensor_location
  last_data_received_at :: "datetime option"

text \<open>
  A row of \<^verbatim>\<open>SensorDataValue\<close> with the columns of its \<^verbatim>\<open>sensordata\<close> the query follows.
\<close>

record sensor_data_value =
  sdv_value_type :: string
  sdv_value :: string
  sensordata_timestamp :: datetime
  sensordata_location :: int
  sensordata_sensor :: int
  sensordata_sensor_node :: int

record fleet =
  last_active_nodes :: "last_active_node list"
  node_table :: "node list"
  sensor_data_values :: "sensor_data_value list"

record node_stat = summary +
  stat_value_type :: string
  sensor_id :: int

record place =
  place_name :: string
  place_longitude :: rat
  place_latitude :: rat
  place_city_name :: string
  place_city_slug :: string

record node_status =
  node_moved :: bool
  moved_to :: "place option"
  status_node_uid :: string
  status_node_id :: int
  status_location :: place
  status_last_data_received_at :: "datetime option"
  stats :: "error + node_stat list"

text \<open>
  \<^verbatim>\<open>Node.objects.filter(Q(id=...), ~Q(sensors=None)).get()\<close>: the node with this
  identifier, provided some sensor refers to it.  \<^verbatim>\<open>get\<close> raises \<^verbatim>\<open>DoesNotExist\<close> when the
  filter selects no row; the identifier is the primary key, so it selects at most one.
\<close>

definition get_node :: "node list \<Rightarrow> int \<Rightarrow> error + node" where
  "get_node table i =
     (case filter (\<lambda>n. node_id n = i \<and> sensors n \<noteq> []) table of
        [] \<Rightarrow> Inl DoesNotExist
      | n # _ \<Rightarrow> Inr n)"

text \<open>The filter of the statistics of one node, lines 222 to 231.\<close>

definition stats_filter :: "last_active_node \<Rightarrow> datetime \<Rightarrow> datetime \<Rightarrow> sensor_data_value \<Rightarrow> bool" where
  "stats_filter last_active last_5_mins received v =
     (sensordata_sensor_node v = node_id (la_node last_active)
      \<and> sensordata_location v = location_id (la_location last_active)
      \<and> sensordata_timestamp v \<ge> last_5_mins
      \<and> sensordata_timestamp v \<le> received
      \<and> sdv_value_type v \<noteq> ''timestamp''
      \<and> matches nodes_value_regex (sdv_value v))"

text \<open>
  \<^verbatim>\<open>.values("value_type").annotate(sensor_id=F(...), ...)\<close> groups by the value type and
  the sensor, and computes the aggregates of each group with the arithmetic of the
  engine.
\<close>

definition stat_row ::
  "engine \<Rightarrow> (string \<times> int) \<times> sensor_data_value list \<Rightarrow> error + node_stat" where
  "stat_row eng kg =
     (case kg of ((vt, sid), g) \<Rightarrow>
        (case every (map (\<lambda>v. cast_float eng (sdv_value v)) g) of
           None \<Rightarrow> Inl DataError
         | Some xs \<Rightarrow>
        (case float_avg eng xs of
           None \<Rightarrow> Inl DataError
         | Some avg \<Rightarrow>
             Inr \<lparr> average = avg,
                   minimum = Min (set xs),
                   maximum = Max (set xs),
                   start_datetime = Min (set (map sensordata_timestamp g)),
                   end_datetime = Max (set (map sensordata_timestamp g)),
                   stat_value_type = vt,
                   sensor_id = sid \<rparr>)))"

text \<open>
  The query set of the statistics of a node.  The view does not run it: it is evaluated
  when the response is rendered, and \<open>stats\<close> holds what that evaluation gives, rows or
  the error of the engine.
\<close>

definition node_stats ::
  "engine \<Rightarrow> fleet \<Rightarrow> last_active_node \<Rightarrow> datetime \<Rightarrow> datetime \<Rightarrow> error + node_stat list" where
  "node_stats eng f last_active last_5_mins received =
     collect (map (stat_row eng)
       (group_by (\<lambda>v. (sdv_value_type v, sensordata_sensor v))
          (filter (stats_filter last_active last_5_mins received) (sensor_data_values f))))"

definition place_of :: "(string \<Rightarrow> string) \<Rightarrow> sensor_location \<Rightarrow> place" where
  "place_of slugify l =
     \<lparr> place_name = location_name l,
       place_longitude = longitude l,
       place_latitude = latitude l,
       place_city_name = location_city l,
       place_city_slug = slugify (location_city l) \<rparr>"

text \<open>
  One turn of the loop of \<^verbatim>\<open>NodesView.list\<close>; \<^verbatim>\<open>slugify\<close> is the framework's and a
  parameter.  Nothing catches the exception of \<^verbatim>\<open>get\<close>.
\<close>

definition node_entry ::
  "engine \<Rightarrow> (string \<Rightarrow> string) \<Rightarrow> fleet \<Rightarrow> last_active_node \<Rightarrow> error + node_status" where
  "node_entry eng slugify f last_active =
     (case get_node (node_table f) (node_id (la_node last_active)) of
        Inl e \<Rightarrow> Inl e
      | Inr node \<Rightarrow>
          (case (case last_data_received_at last_active of
                   None \<Rightarrow> Inr (Inr [])
                 | Some received \<Rightarrow>
                     (case add_timedelta received (- minutes 5) of
                        Inl e \<Rightarrow> Inl e
                      | Inr last_5_mins \<Rightarrow>
                          Inr (node_stats eng f last_active last_5_mins received))) of
             Inl e \<Rightarrow> Inl e
           | Inr sts \<Rightarrow>
               (let moved = (if location_id (la_location last_active) \<noteq> location_id (node_location node)
                             then Some (place_of slugify (node_location node)) else None)
                in Inr \<lparr> node_moved = (moved \<noteq> None),
                         moved_to = moved,
                         status_node_uid = uid (la_node last_active),
                         status_node_id = node_id (la_node last_active),
                         status_location = place_of slugify (la_location last_active),
                         status_last_data_received_at = last_data_received_at last_active,
                         stats = sts \<rparr>)))"

fun nodes_loop ::
  "engine \<Rightarrow> (string \<Rightarrow> string) \<Rightarrow> fleet \<Rightarrow> last_active_node list \<Rightarrow> node_status list \<Rightarrow>
     error + node_status list" where
  "nodes_loop eng slugify f [] nodes = Inr nodes"
| "nodes_loop eng slugify f (last_active # rest) nodes =
     (case node_entry eng slugify f last_active of
        Inl e \<Rightarrow> Inl e
      | Inr status \<Rightarrow> nodes_loop eng slugify f rest (nodes @ [status]))"

text \<open>\<^verbatim>\<open>NodesView.list\<close>.\<close>

definition nodes_list :: "engine \<Rightarrow> (string \<Rightarrow> string) \<Rightarrow> fleet \<Rightarrow> error + node_status list" where
  "nodes_list eng slugify f = nodes_loop eng slugify f (last_active_nodes f) []"

section \<open>Concrete inputs\<close>

text \<open>
  The decimal digits beyond ASCII of the evaluations below: the Arabic-Indic digits, from
  U+0660, and the fullwidth digits, from U+FF10.
\<close>

definition example_zeros :: "int list" where
  "example_zeros = [1632, 65296]"

text \<open>
  An engine for the evaluations below.  It truncates to the minute, the hour and the day
  in UTC and knows no other unit, and it writes every timestamp as the empty text.  It
  casts the three texts the evaluations store, whose decimals are doubles as they stand,
  and no other text; its sums and quotients are the exact ones, which are doubles on
  the values the evaluations meet, and it divides by no count of zero.
\<close>

definition example_engine :: engine where
  "example_engine =
     \<lparr> date_trunc = (\<lambda>unit t.
         if unit = ''day'' then Some (t - t mod us_per_day)
         else if unit = ''hour'' then Some (t - t mod hours 1)
         else if unit = ''minute'' then Some (t - t mod minutes 1)
         else None),
       timestamp_text = (\<lambda>t. []),
       cast_float = map_of [(''5'', 5), (''61.5'', 123 / 2), (''3.5'', 7 / 2)],
       float_sum = (\<lambda>xs. Some (sum_list xs)),
       float_div = (\<lambda>x n. if n = 0 then None else Some (x / of_nat n)),
       float_avg = (\<lambda>xs. if xs = [] then None else Some (sum_list xs / of_nat (length xs))) \<rparr>"

text \<open>\<^verbatim>\<open>GET /stats/air?from=2023-01-01&to=2023-01-03\<close>\<close>

definition example_request :: request where
  "example_request =
     \<lparr> sensor_type = ''air'', city_param = None,
       from_param = Some (code_points ''2023-01-01''),
       to_param = Some (code_points ''2023-01-03''),
       avg_param = None, value_type_param = None \<rparr>"

text \<open>2023-01-04T00:00:00Z, the end of the window of \<open>example_request\<close>.\<close>

definition jan_4 :: datetime where
  "jan_4 = 738524 * us_per_day"

definition example_db :: db where
  "example_db =
     \<lparr> readings =
         [\<lparr> v_value_type = ''P1'', v_value = ''5'', sd_timestamp = jan_4, sl_city = ''Nairobi'' \<rparr>,
          \<lparr> v_value_type = ''P1'', v_value = ''n/a'', sd_timestamp = jan_4 - hours 30,
            sl_city = ''Nairobi'' \<rparr>,
          \<lparr> v_value_type = ''humidity'', v_value = ''61.5'', sd_timestamp = jan_4 - hours 1,
            sl_city = ''Lagos'' \<rparr>],
       executed = 0 \<rparr>"

text \<open>
  Four grouped rows: two buckets of P1 in Nairobi with a bucket of P2 in Nairobi and a
  bucket of P1 in Lagos between them.
\<close>

definition example_row :: "string \<Rightarrow> string \<Rightarrow> rat \<Rightarrow> datetime \<Rightarrow> data_stat" where
  "example_row city vt x t =
     \<lparr> average = x, minimum = x - 1, maximum = x + 1,
       start_datetime = t, end_datetime = t + hours 1,
       city_name = city, value_type = vt, debug = [] \<rparr>"

definition example_rows :: "data_stat list" where
  "example_rows =
     [example_row ''Nairobi'' ''P1'' 10 (jan_4 - hours 48),
      example_row ''Nairobi'' ''P2'' 20 (jan_4 - hours 48),
      example_row ''Lagos'' ''P1'' 30 (jan_4 - hours 48),
      example_row ''Nairobi'' ''P1'' 40 (jan_4 - hours 24)]"

text \<open>
  A fleet of two nodes with one snapshot each: node 1 has no sensor, node 2 has sensor 7
  and one value in the five minutes before its last data.  The city names are their own
  slugs, so the identity stands for \<^verbatim>\<open>slugify\<close> on them.
\<close>

definition example_location :: "int \<Rightarrow> string \<Rightarrow> sensor_location" where
  "example_location i c =
     \<lparr> location_id = i, location_name = ''site'', longitude = 0, latitude = 0,
       location_city = c \<rparr>"

definition example_node :: "int \<Rightarrow> int list \<Rightarrow> node" where
  "example_node i ss =
     \<lparr> node_id = i, uid = ''esp8266'', sensors = ss, node_location = example_location i ''nairobi'' \<rparr>"

definition example_fleet :: fleet where
  "example_fleet =
     \<lparr> last_active_nodes =
         [\<lparr> la_node = example_node 1 [], la_location = example_location 1 ''nairobi'',
            last_data_received_at = None \<rparr>,
          \<lparr> la_node = example_node 2 [7], la_location = example_location 2 ''nairobi'',
            last_data_received_at = Some jan_4 \<rparr>],
       node_table = [example_node 1 [], example_node 2 [7]],
       sensor_data_values =
         [\<lparr> sdv_value_type = ''P1'', sdv_value = ''3.5'',
            sensordata_timestamp = jan_4 - minutes 2, sensordata_location = 2,
            sensordata_sensor = 7, sensordata_sensor_node = 2 \<rparr>] \<rparr>"

section \<open>Formats of date texts\<close>

text \<open>
  The format of the specification, \<^verbatim>\<open>YYYY-MM-DD\<close> exactly: four digits, a dash, two
  digits, a dash, two digits, the digits being those of ASCII.
\<close>

definition ascii_digit :: "int \<Rightarrow> bool" where
  "ascii_digit c = in_range CHR ''0'' CHR ''9'' c"

definition is_yyyy_mm_dd :: "utext \<Rightarrow> bool" where
  "is_yyyy_mm_dd s =
     (length s = 10
      \<and> list_all ascii_digit (take 4 s) \<and> is_char CHR ''-'' (s ! 4)
      \<and> list_all ascii_digit (take 2 (drop 5 s)) \<and> is_char CHR ''-'' (s ! 7)
      \<and> list_all ascii_digit (drop 8 s))"

text \<open>
  The texts \<^verbatim>\<open>strptime\<close> takes for a month: the numbers 1 to 12 in the digits of ASCII,
  with or without a leading zero below 10.
\<close>

definition month_text :: "utext \<Rightarrow> bool" where
  "month_text ms =
     ((length ms = 1 \<or> length ms = 2) \<and> list_all ascii_digit ms
      \<and> 1 \<le> py_int [] ms \<and> py_int [] ms \<le> 12)"

text \<open>
  The texts \<^verbatim>\<open>strptime\<close> takes for a day: the numbers 1 to 31 in the digits of ASCII,
  with or without a leading zero below 10; a 1 or a 2 of ASCII followed by any decimal
  digit of Unicode; and a blank followed by a digit from 1 to 9 of ASCII.
\<close>

definition day_text :: "int list \<Rightarrow> utext \<Rightarrow> bool" where
  "day_text zeros ds =
     (((length ds = 1 \<or> length ds = 2) \<and> list_all ascii_digit ds
         \<and> 1 \<le> py_int [] ds \<and> py_int [] ds \<le> 31)
      \<or> (length ds = 2 \<and> in_range CHR ''1'' CHR ''2'' (ds ! 0) \<and> is_decimal zeros (ds ! 1))
      \<or> (length ds = 2 \<and> is_char CHR '' '' (ds ! 0) \<and> in_range CHR ''1'' CHR ''9'' (ds ! 1)))"

text \<open>
  A date text \<^verbatim>\<open>strptime\<close> accepts: a year of four decimal digits of Unicode, not the
  year 0, a month text and a day text, separated by dashes, with a day that the month of
  that year has.
\<close>

definition accepted_date :: "int list \<Rightarrow> utext \<Rightarrow> bool" where
  "accepted_date zeros s =
     (\<exists>ys ms ds. s = ys @ code_points ''-'' @ ms @ code_points ''-'' @ ds
        \<and> length ys = 4 \<and> list_all (is_decimal zeros) ys \<and> 1 \<le> py_int zeros ys
        \<and> month_text ms \<and> day_text zeros ds
        \<and> py_int zeros ds \<le> days_in_month (py_int zeros ys) (py_int zeros ms))"

section \<open>What the shaper is expected to hold\<close>

text \<open>
  The rows of a sequence that carry a given city and value type, in the order of the
  sequence, and the entry they should leave under that city and value type: the
  sequence of their summaries when a date range was asked for, the summary of the last
  of them otherwise.
\<close>

definition matching :: "string \<Rightarrow> string \<Rightarrow> data_stat list \<Rightarrow> data_stat list" where
  "matching city vt rows = filter (\<lambda>r. city_name r = city \<and> value_type r = vt) rows"

definition shaped :: "bool \<Rightarrow> data_stat list \<Rightarrow> entry" where
  "shaped from_date m =
     (if from_date then Seq (map summary_of m) else Obj (Some (summary_of (last m))))"

text \<open>
  The state of the dictionary after the rows \<open>rows\<close>: a city is a key exactly when a row
  carries it; its dictionary holds its name, and under each value type the entry of the
  matching rows, when there are any.
\<close>

definition shaped_so_far :: "bool \<Rightarrow> results_dict \<Rightarrow> data_stat list \<Rightarrow> bool" where
  "shaped_so_far from_date res rows =
     (\<forall>city.
        (case map_of res city of
           None \<Rightarrow> list_all (\<lambda>r. city_name r \<noteq> city) rows
         | Some cd \<Rightarrow>
             map_of cd ''city_name'' = Some (Text city)
             \<and> (\<forall>vt. vt = ''city_name''
                    \<or> map_of cd vt = (if matching city vt rows = [] then None
                                      else Some (shaped from_date (matching city vt rows))))))"

section \<open>Properties of the numeric value filter\<close>

lemma conc_iff: "w \<in> conc A B \<longleftrightarrow> (\<exists>u v. w = u @ v \<and> u \<in> A \<and> v \<in> B)"
  by (auto simp: conc_def)

lemma nil_in_rep1: "[] \<in> rep1 A \<longleftrightarrow> [] \<in> A"
proof
  have "w \<in> rep1 A \<Longrightarrow> w = [] \<Longrightarrow> [] \<in> A" for w
    by (induction rule: rep1.induct) auto
  then show "[] \<in> rep1 A \<Longrightarrow> [] \<in> A" by blast
next
  show "[] \<in> A \<Longrightarrow> [] \<in> rep1 A" by (rule rep1.once)
qed

lemma nullable_lang: "nullable r \<longleftrightarrow> [] \<in> lang r"
  by (induction r) (auto simp: conc_iff nil_in_rep1)

lemma cons_in_conc:
  "c # w \<in> conc A B \<longleftrightarrow>
     (\<exists>u v. w = u @ v \<and> c # u \<in> A \<and> v \<in> B) \<or> ([] \<in> A \<and> c # w \<in> B)"
proof
  assume "c # w \<in> conc A B"
  then obtain x y where xy: "c # w = x @ y" "x \<in> A" "y \<in> B"
    by (auto simp: conc_iff)
  show "(\<exists>u v. w = u @ v \<and> c # u \<in> A \<and> v \<in> B) \<or> ([] \<in> A \<and> c # w \<in> B)"
  proof (cases x)
    case Nil
    with xy show ?thesis by simp
  next
    case (Cons a x')
    with xy have "w = x' @ y" "c # x' \<in> A" by auto
    with xy show ?thesis by blast
  qed
next
  assume "(\<exists>u v. w = u @ v \<and> c # u \<in> A \<and> v \<in> B) \<or> ([] \<in> A \<and> c # w \<in> B)"
  then show "c # w \<in> conc A B"
  proof
    assume "\<exists>u v. w = u @ v \<and> c # u \<in> A \<and> v \<in> B"
    then obtain u v where "w = u @ v" "c # u \<in> A" "v \<in> B" by blast
    then have "c # w = (c # u) @ v" by simp
    with \<open>c # u \<in> A\<close> \<open>v \<in> B\<close> show ?thesis unfolding conc_iff by blast
  next
    assume "[] \<in> A \<and> c # w \<in> B"
    then have "c # w = [] @ (c # w)" "[] \<in> A" "c # w \<in> B" by simp_all
    then show ?thesis unfolding conc_iff by blast
  qed
qed

lemma cons_in_rep1:
  "c # w \<in> rep1 A \<longleftrightarrow> (\<exists>u v. w = u @ v \<and> c # u \<in> A \<and> (v = [] \<or> v \<in> rep1 A))"
proof
  have "x \<in> rep1 A \<Longrightarrow> x = c # w \<Longrightarrow>
        \<exists>u v. w = u @ v \<and> c # u \<in> A \<and> (v = [] \<or> v \<in> rep1 A)" for x
  proof (induction arbitrary: w rule: rep1.induct)
    case (once x)
    then show ?case by auto
  next
    case (more u v)
    show ?case
    proof (cases u)
      case Nil
      with more show ?thesis by simp
    next
      case (Cons a u')
      with more have "w = u' @ v" "c # u' \<in> A" by auto
      with more show ?thesis by blast
    qed
  qed
  then show "c # w \<in> rep1 A \<Longrightarrow>
      \<exists>u v. w = u @ v \<and> c # u \<in> A \<and> (v = [] \<or> v \<in> rep1 A)" by blast
next
  assume "\<exists>u v. w = u @ v \<and> c # u \<in> A \<and> (v = [] \<or> v \<in> rep1 A)"
  then obtain u v where uv: "w = u @ v" "c # u \<in> A" "v = [] \<or> v \<in> rep1 A" by blast
  from uv(3) show "c # w \<in> rep1 A"
  proof
    assume "v = []"
    with uv show ?thesis by (simp add: rep1.once)
  next
    assume "v \<in> rep1 A"
    with uv(2) have "(c # u) @ v \<in> rep1 A" by (rule rep1.more)
    with uv show ?thesis by simp
  qed
qed

lemma lang_deriv: "w \<in> lang (deriv c r) \<longleftrightarrow> c # w \<in> lang r"
proof (induction r arbitrary: w)
  case (Cat r s)
  have "w \<in> lang (deriv c (Cat r s)) \<longleftrightarrow>
          (\<exists>u v. w = u @ v \<and> u \<in> lang (deriv c r) \<and> v \<in> lang s) \<or>
          (nullable r \<and> w \<in> lang (deriv c s))"
    by (simp add: conc_iff)
  also have "\<dots> \<longleftrightarrow> (\<exists>u v. w = u @ v \<and> c # u \<in> lang r \<and> v \<in> lang s) \<or>
          ([] \<in> lang r \<and> c # w \<in> lang s)"
    by (simp add: Cat nullable_lang)
  also have "\<dots> \<longleftrightarrow> c # w \<in> lang (Cat r s)"
    by (simp add: cons_in_conc)
  finally show ?case .
next
  case (Plus r)
  have "w \<in> lang (deriv c (Plus r)) \<longleftrightarrow>
          (\<exists>u v. w = u @ v \<and> u \<in> lang (deriv c r) \<and> (v = [] \<or> v \<in> rep1 (lang r)))"
    by (simp add: conc_iff)
  also have "\<dots> \<longleftrightarrow> (\<exists>u v. w = u @ v \<and> c # u \<in> lang r \<and> (v = [] \<or> v \<in> rep1 (lang r)))"
    by (simp add: Plus)
  also have "\<dots> \<longleftrightarrow> c # w \<in> lang (Plus r)"
    by (simp add: cons_in_rep1)
  finally show ?case .
next
  case (Alt r s) then show ?case by simp
next
  case (Opt r) then show ?case by simp
qed auto

lemma matches_lang: "matches r s \<longleftrightarrow> s \<in> lang r"
  unfolding matches_def
  by (induction s arbitrary: r) (simp_all add: nullable_lang lang_deriv)

lemma digits1_append: "digits1 u \<Longrightarrow> digits1 v \<Longrightarrow> digits1 (u @ v)"
  by (simp add: digits1_def)

lemma rep1_digit: "w \<in> rep1 {[c] | c. is_digit c} \<longleftrightarrow> digits1 w"
proof
  show "w \<in> rep1 {[c] | c. is_digit c} \<Longrightarrow> digits1 w"
    by (induction rule: rep1.induct) (auto simp: digits1_def)
next
  show "digits1 w \<Longrightarrow> w \<in> rep1 {[c] | c. is_digit c}"
  proof (induction w)
    case Nil
    then show ?case by (simp add: digits1_def)
  next
    case (Cons c w)
    then have c: "[c] \<in> {[c] | c. is_digit c}" by (simp add: digits1_def)
    show ?case
    proof (cases w)
      case Nil
      with c show ?thesis by (simp add: rep1.once)
    next
      case (Cons d w')
      with Cons.prems have "digits1 w" by (simp add: digits1_def)
      then have "w \<in> rep1 {[c] | c. is_digit c}" by (rule Cons.IH)
      with c have "[c] @ w \<in> rep1 {[c] | c. is_digit c}" by (rule rep1.more)
      then show ?thesis by simp
    qed
  qed
qed

lemma fraction_forms:
  "(\<exists>u v. w = u @ v \<and> digits1 u \<and> (v = [] \<or> (\<exists>x y. v = x @ y \<and> (x = [] \<or> x = ''.'') \<and> digits1 y)))
   \<longleftrightarrow> (\<exists>u v. w = u @ v \<and> digits1 u \<and> (v = [] \<or> (\<exists>y. v = CHR ''.'' # y \<and> digits1 y)))"
  (is "?L \<longleftrightarrow> ?R")
proof
  assume ?L
  then obtain u v where uv: "w = u @ v" "digits1 u"
    "v = [] \<or> (\<exists>x y. v = x @ y \<and> (x = [] \<or> x = ''.'') \<and> digits1 y)" by blast
  from uv(3) show ?R
  proof
    assume "v = []"
    with uv show ?R by blast
  next
    assume "\<exists>x y. v = x @ y \<and> (x = [] \<or> x = ''.'') \<and> digits1 y"
    then obtain x y where xy: "v = x @ y" "x = [] \<or> x = ''.''" "digits1 y" by blast
    from xy(2) show ?R
    proof
      assume "x = []"
      with uv xy have "w = (u @ y) @ []" "digits1 (u @ y)" by (simp_all add: digits1_append)
      then show ?R by blast
    next
      assume "x = ''.''"
      with uv xy have "w = u @ v" "digits1 u" "v = CHR ''.'' # y" "digits1 y" by simp_all
      then show ?R by blast
    qed
  qed
next
  assume ?R
  then obtain u v where uv: "w = u @ v" "digits1 u"
    "v = [] \<or> (\<exists>y. v = CHR ''.'' # y \<and> digits1 y)" by blast
  from uv(3) show ?L
  proof
    assume "v = []"
    with uv show ?L by blast
  next
    assume "\<exists>y. v = CHR ''.'' # y \<and> digits1 y"
    then obtain y where "v = ''.'' @ y" "digits1 y" by auto
    with uv show ?L by blast
  qed
qed

lemma signed_decimal_nested:
  "signed_decimal t \<longleftrightarrow>
     (\<exists>u v. t = u @ v \<and> (u = [] \<or> u = ''-'') \<and>
        (\<exists>ip fr. v = ip @ fr \<and> digits1 ip \<and> (fr = [] \<or> (\<exists>fd. fr = CHR ''.'' # fd \<and> digits1 fd))))"
  (is "?L \<longleftrightarrow> ?R")
proof
  assume ?L
  then obtain sg ip fr where h: "t = sg @ ip @ fr" "sg = [] \<or> sg = ''-''" "digits1 ip"
    "fr = [] \<or> (\<exists>fd. fr = CHR ''.'' # fd \<and> digits1 fd)"
    unfolding signed_decimal_def by blast
  have "\<exists>ip' fr'. ip @ fr = ip' @ fr' \<and> digits1 ip' \<and>
          (fr' = [] \<or> (\<exists>fd. fr' = CHR ''.'' # fd \<and> digits1 fd))"
    using h(3,4) by (intro exI[of _ ip] exI[of _ fr]) simp
  with h(1,2) show ?R by (intro exI[of _ sg] exI[of _ "ip @ fr"]) simp
next
  assume ?R
  then obtain u v where uv: "t = u @ v" "u = [] \<or> u = ''-''"
    "\<exists>ip fr. v = ip @ fr \<and> digits1 ip \<and> (fr = [] \<or> (\<exists>fd. fr = CHR ''.'' # fd \<and> digits1 fd))"
    by blast
  from uv(3) obtain ip fr where h: "v = ip @ fr" "digits1 ip"
    "fr = [] \<or> (\<exists>fd. fr = CHR ''.'' # fd \<and> digits1 fd)" by blast
  show ?L unfolding signed_decimal_def
    using uv(1,2) h by (intro exI[of _ u] exI[of _ ip] exI[of _ fr]) simp
qed

lemma lang_spec_value_regex: "t \<in> lang spec_value_regex \<longleftrightarrow> signed_decimal t"
  unfolding signed_decimal_nested spec_value_regex_def
  by (simp add: conc_iff rep1_digit)

lemma lang_stats_value_regex: "t \<in> lang stats_value_regex \<longleftrightarrow> signed_decimal t"
proof -
  have "t \<in> lang stats_value_regex \<longleftrightarrow>
     (\<exists>u v. t = u @ v \<and> (u = [] \<or> u = ''-'') \<and>
        (\<exists>ip fr. v = ip @ fr \<and> digits1 ip \<and>
           (fr = [] \<or> (\<exists>x y. fr = x @ y \<and> (x = [] \<or> x = ''.'') \<and> digits1 y))))"
    unfolding stats_value_regex_def by (simp add: conc_iff rep1_digit)
  also have "\<dots> \<longleftrightarrow> signed_decimal t"
    unfolding signed_decimal_nested by (simp only: fraction_forms)
  finally show ?thesis .
qed

lemma lang_nodes_value_regex: "t \<in> lang nodes_value_regex \<longleftrightarrow> signed_decimal t"
  using lang_stats_value_regex by (simp add: nodes_value_regex_def stats_value_regex_def)

lemma stats_value_regex_spec: "matches stats_value_regex t \<longleftrightarrow> matches spec_value_regex t"
  by (simp add: matches_lang lang_stats_value_regex lang_spec_value_regex)

lemma nodes_value_regex_spec: "matches nodes_value_regex t \<longleftrightarrow> matches spec_value_regex t"
  by (simp add: matches_lang lang_nodes_value_regex lang_spec_value_regex)

lemma numeric_filter_examples:
  "matches stats_value_regex ''0''"
  "matches stats_value_regex ''42''"
  "matches stats_value_regex ''-7''"
  "matches stats_value_regex ''3.14''"
  "matches stats_value_regex ''-0.5''"
  "\<not> matches stats_value_regex ''''"
  "\<not> matches stats_value_regex ''-''"
  "\<not> matches stats_value_regex ''--1''"
  "\<not> matches stats_value_regex ''+1''"
  "\<not> matches stats_value_regex ''1.''"
  "\<not> matches stats_value_regex ''.5''"
  "\<not> matches stats_value_regex ''1.2.3''"
  "\<not> matches stats_value_regex ''1e5''"
  "\<not> matches stats_value_regex ''abc''"
  "\<not> matches stats_value_regex ''12a''"
  "\<not> matches stats_value_regex '' 1''"
  by (simp_all add: matches_def stats_value_regex_def is_digit_def)

text \<open>
  C1.  A value text is admitted into the aggregation exactly when it matches the
  pattern of the specification, \<^verbatim>\<open>^-?\d+(\.\d+)?$\<close>: the pattern of the statistics query
  and the pattern of the fleet status query (the same text, \<^verbatim>\<open>^\-?\d+(\.?\d+)?$\<close>) accept
  the same texts as the specification's, and these are the texts made of an optional
  leading minus, one or more digits and optionally a dot followed by one or more digits.
  A reading is selected by the \<^verbatim>\<open>WHERE\<close> clause of the statistics query, and a value by
  the filter of the fleet status query, exactly when its text matches the pattern and the
  conditions that do not read the text hold.
\<close>

theorem numeric_filter_is_spec_pattern:
  "(matches stats_value_regex t \<longleftrightarrow> matches spec_value_regex t)
   \<and> (matches nodes_value_regex t \<longleftrightarrow> matches spec_value_regex t)
   \<and> (matches spec_value_regex t \<longleftrightarrow> signed_decimal t)
   \<and> (where_clause wanted cities from_date to_date (r\<lparr>v_value := t\<rparr>) \<longleftrightarrow>
        matches spec_value_regex t
        \<and> where_clause wanted cities from_date to_date (r\<lparr>v_value := ''0''\<rparr>))
   \<and> (stats_filter last_active lo hi (v\<lparr>sdv_value := t\<rparr>) \<longleftrightarrow>
        matches spec_value_regex t
        \<and> stats_filter last_active lo hi (v\<lparr>sdv_value := ''0''\<rparr>))"
proof -
  have zero_stats: "matches stats_value_regex ''0''"
    by (simp add: matches_def stats_value_regex_def is_digit_def)
  have zero_nodes: "matches nodes_value_regex ''0''"
    by (simp add: matches_def nodes_value_regex_def is_digit_def)
  have a: "matches stats_value_regex t \<longleftrightarrow> matches spec_value_regex t"
    by (rule stats_value_regex_spec)
  have b: "matches nodes_value_regex t \<longleftrightarrow> matches spec_value_regex t"
    by (rule nodes_value_regex_spec)
  have c: "matches spec_value_regex t \<longleftrightarrow> signed_decimal t"
    by (simp add: matches_lang lang_spec_value_regex)
  have d: "where_clause wanted cities from_date to_date (r\<lparr>v_value := t\<rparr>) \<longleftrightarrow>
        matches spec_value_regex t
        \<and> where_clause wanted cities from_date to_date (r\<lparr>v_value := ''0''\<rparr>)"
    using zero_stats a by (auto simp: where_clause_def)
  have e: "stats_filter last_active lo hi (v\<lparr>sdv_value := t\<rparr>) \<longleftrightarrow>
        matches spec_value_regex t
        \<and> stats_filter last_active lo hi (v\<lparr>sdv_value := ''0''\<rparr>)"
    using zero_nodes b by (auto simp: stats_filter_def)
  from a b c d e show ?thesis by blast
qed

theorem numeric_filter_is_spec_pattern_witness:
  "matches stats_value_regex ''-12.5'' \<and> matches nodes_value_regex ''-12.5''
   \<and> signed_decimal ''-12.5'' \<and> \<not> signed_decimal ''1.2.3''"
proof -
  have m: "matches stats_value_regex ''-12.5''" "\<not> matches stats_value_regex ''1.2.3''"
    by (simp_all add: matches_def stats_value_regex_def is_digit_def)
  from m(1) numeric_filter_is_spec_pattern [of "''-12.5''"]
  have "matches nodes_value_regex ''-12.5''" "signed_decimal ''-12.5''" by blast+
  moreover from m(2) numeric_filter_is_spec_pattern [of "''1.2.3''"]
  have "\<not> signed_decimal ''1.2.3''" by blast
  ultimately show ?thesis using m(1) by blast
qed

section \<open>Properties of the statistics view\<close>

lemma upper_char_idem: "upper_char (upper_char c) = upper_char c"
  by (simp add: upper_char_def)

lemma upper_idem: "upper (upper s) = upper s"
  by (simp add: upper_def upper_char_idem)

lemma group_by_iff:
  "(k, g) \<in> set (group_by key rows) \<longleftrightarrow> k \<in> key ` set rows \<and> g = filter (\<lambda>r. key r = k) rows"
  by (auto simp: group_by_def)

lemma group_by_nonempty: "(k, g) \<in> set (group_by key rows) \<Longrightarrow> g \<noteq> []"
  by (auto simp: group_by_iff filter_empty_conv)

lemma group_by_member:
  "(k, g) \<in> set (group_by key rows) \<Longrightarrow> r \<in> set g \<Longrightarrow> r \<in> set rows \<and> key r = k"
  by (auto simp: group_by_iff)

lemma group_by_covers:
  "r \<in> set rows \<Longrightarrow> \<exists>g. (key r, g) \<in> set (group_by key rows) \<and> r \<in> set g"
  by (auto simp: group_by_iff)

lemma collect_rows: "collect xs = Inr ys \<longleftrightarrow> xs = map Inr ys"
proof (induction xs arbitrary: ys)
  case Nil
  show ?case by auto
next
  case (Cons x xs)
  show ?case
  proof (cases x)
    case (Inl e)
    then show ?thesis by auto
  next
    case (Inr v)
    show ?thesis
    proof (cases "collect xs")
      case (Inl e)
      have "xs \<noteq> map Inr vs" for vs using Cons.IH [of vs] Inl by simp
      with Inl Inr show ?thesis by (cases ys) auto
    next
      case r: (Inr vs)
      have "xs = map Inr vs" using Cons.IH [of vs] r by blast
      with r Inr show ?thesis by (cases ys) auto
    qed
  qed
qed

lemma check_dates_to_without_from:
  "truthy (to_param req) \<Longrightarrow> \<not> truthy (from_param req) \<Longrightarrow>
     check_dates zeros req = Inl (ValidationError ''from'' ''Must be provide along with to query'')"
  by (simp add: check_dates_def)

lemma empty_to_is_no_to:
  assumes "to_param req = Some []"
  shows "get_queryset zeros eng now d req = get_queryset zeros eng now d (req\<lparr>to_param := None\<rparr>)"
proof -
  from assms have c: "check_dates zeros req = check_dates zeros (req\<lparr>to_param := None\<rparr>)"
    by (simp add: check_dates_def truthy_def)
  have f: "filter_value_types req = filter_value_types (req\<lparr>to_param := None\<rparr>)"
    by (simp add: filter_value_types_def split: option.splits)
  from assms have w: "resolve_window zeros now req = resolve_window zeros now (req\<lparr>to_param := None\<rparr>)"
    by (simp add: resolve_window_def truthy_def)
  show ?thesis unfolding get_queryset_def c f w
    by (simp add: Let_def split: sum.splits prod.splits)
qed

text \<open>
  C7, as amended.  When the \<^verbatim>\<open>to\<close> parameter is given with a text that is not empty and
  the \<^verbatim>\<open>from\<close> parameter is absent or empty, \<^verbatim>\<open>get_queryset\<close> fails with the
  \<^verbatim>\<open>ValidationError\<close> on \<^verbatim>\<open>from\<close>, and the database is as it was: no statement has
  been sent and no aggregation has been computed.  When the \<^verbatim>\<open>to\<close> parameter is given
  with the empty text, the request is handled as the same request without \<^verbatim>\<open>to\<close>.
\<close>

theorem to_without_from_is_rejected:
  "(truthy (to_param req) \<and> \<not> truthy (from_param req) \<longrightarrow>
      get_queryset zeros eng now d req =
        (Inl (ValidationError ''from'' ''Must be provide along with to query''), d))
   \<and> (to_param req = Some [] \<longrightarrow>
      get_queryset zeros eng now d req = get_queryset zeros eng now d (req\<lparr>to_param := None\<rparr>))"
proof (intro conjI impI)
  assume "truthy (to_param req) \<and> \<not> truthy (from_param req)"
  then show "get_queryset zeros eng now d req =
        (Inl (ValidationError ''from'' ''Must be provide along with to query''), d)"
    by (simp add: get_queryset_def check_dates_to_without_from)
next
  assume "to_param req = Some []"
  then show "get_queryset zeros eng now d req
               = get_queryset zeros eng now d (req\<lparr>to_param := None\<rparr>)"
    by (rule empty_to_is_no_to)
qed

theorem to_without_from_is_rejected_witness:
  "truthy (to_param (example_request\<lparr>from_param := None\<rparr>))
   \<and> \<not> truthy (from_param (example_request\<lparr>from_param := None\<rparr>))
   \<and> get_queryset example_zeros example_engine jan_4 example_db
         (example_request\<lparr>from_param := None\<rparr>) =
       (Inl (ValidationError ''from'' ''Must be provide along with to query''), example_db)
   \<and> executed (snd (get_queryset example_zeros example_engine jan_4 example_db
                      (example_request\<lparr>from_param := None\<rparr>))) = 0
   \<and> to_param (example_request\<lparr>from_param := None, to_param := Some []\<rparr>) = Some []
   \<and> get_queryset example_zeros example_engine jan_4 example_db
         (example_request\<lparr>from_param := None, to_param := Some []\<rparr>) =
       get_queryset example_zeros example_engine jan_4 example_db
         (example_request\<lparr>from_param := None, to_param := None\<rparr>)"
proof -
  let ?a = "example_request\<lparr>from_param := None\<rparr>"
  let ?b = "example_request\<lparr>from_param := None, to_param := Some []\<rparr>"
  have t: "truthy (to_param ?a)" and f: "\<not> truthy (from_param ?a)"
    by (simp_all add: example_request_def truthy_def code_points_def)
  have e: "to_param ?b = Some []" by simp
  from to_without_from_is_rejected [of ?a example_zeros example_engine jan_4 example_db] t f
  have 1: "get_queryset example_zeros example_engine jan_4 example_db ?a =
       (Inl (ValidationError ''from'' ''Must be provide along with to query''), example_db)"
    by simp
  from to_without_from_is_rejected [of ?b example_zeros example_engine jan_4 example_db] e
  have 2: "get_queryset example_zeros example_engine jan_4 example_db ?b =
       get_queryset example_zeros example_engine jan_4 example_db
         (example_request\<lparr>from_param := None, to_param := None\<rparr>)"
    by simp
  have 3: "executed example_db = 0" by (simp add: example_db_def)
  from t f e 1 2 3 show ?thesis by simp
qed

text \<open>
  The claim as the specification states it fails for \<^verbatim>\<open>GET /stats/air?to=\<close>, where \<^verbatim>\<open>to\<close>
  is supplied, with the empty text, and \<^verbatim>\<open>from\<close> is absent: no check of the view raises,
  the statement of the last 24 hours is sent and its rows are returned.
\<close>

theorem empty_to_counterexample:
  "to_param (example_request\<lparr>from_param := None, to_param := Some []\<rparr>) \<noteq> None
   \<and> from_param (example_request\<lparr>from_param := None, to_param := Some []\<rparr>) = None
   \<and> check_dates example_zeros (example_request\<lparr>from_param := None, to_param := Some []\<rparr>)
       = Inr ()
   \<and> resolve_window example_zeros jan_4
        (example_request\<lparr>from_param := None, to_param := Some []\<rparr>)
       = Inr (jan_4 - hours 24, jan_4)
   \<and> fst (get_queryset example_zeros example_engine jan_4 example_db
            (example_request\<lparr>from_param := None, to_param := Some []\<rparr>)) =
       Inr [\<lparr> average = 5, minimum = 5, maximum = 5,
               start_datetime = jan_4, end_datetime = jan_4,
               city_name = ''Nairobi'', value_type = ''P1'', debug = ''5 '' \<rparr>,
            \<lparr> average = 123 / 2, minimum = 123 / 2, maximum = 123 / 2,
               start_datetime = jan_4 - hours 1, end_datetime = jan_4 - hours 1,
               city_name = ''Lagos'', value_type = ''humidity'', debug = ''61.5 '' \<rparr>]
   \<and> executed (snd (get_queryset example_zeros example_engine jan_4 example_db
                      (example_request\<lparr>from_param := None, to_param := Some []\<rparr>))) = 1"
  by code_simp

lemma check_dates_error:
  "check_dates zeros req = Inl e \<Longrightarrow> \<exists>f m. e = ValidationError f m"
  by (auto simp: check_dates_def validate_date_def strptime_def midnight_def
           split: if_splits sum.splits error.splits list.splits prod.splits)

text \<open>
  C6, as amended.  A request whose \<^verbatim>\<open>sensor_type\<close> is not a key of \<^verbatim>\<open>value_types\<close> always
  fails in \<^verbatim>\<open>get_queryset\<close> before any statement is sent, and never with Not Found: when
  the date parameters pass their checks the failure is the \<^verbatim>\<open>KeyError\<close> of the dictionary
  lookup, and otherwise it is the \<^verbatim>\<open>ValidationError\<close> of the date checks, which come first.
\<close>

theorem unknown_sensor_type_fails:
  assumes "value_types (sensor_type req) = None"
  shows "\<exists>e. get_queryset zeros eng now d req = (Inl e, d) \<and> e \<noteq> NotFound
            \<and> (check_dates zeros req = Inr () \<longrightarrow> e = KeyError (sensor_type req))
            \<and> (check_dates zeros req \<noteq> Inr () \<longrightarrow> (\<exists>f m. e = ValidationError f m))"
proof (cases "check_dates zeros req")
  case (Inl e)
  then obtain f m where "e = ValidationError f m" using check_dates_error by blast
  with Inl show ?thesis by (simp add: get_queryset_def)
next
  case (Inr u)
  with assms show ?thesis by (simp add: get_queryset_def filter_value_types_def)
qed

theorem unknown_sensor_type_fails_witness:
  "value_types (sensor_type (example_request\<lparr>sensor_type := ''water''\<rparr>)) = None
   \<and> check_dates example_zeros (example_request\<lparr>sensor_type := ''water''\<rparr>) = Inr ()
   \<and> fst (get_queryset example_zeros example_engine jan_4 example_db
            (example_request\<lparr>sensor_type := ''water''\<rparr>)) = Inl (KeyError ''water'')"
proof -
  have v: "value_types (sensor_type (example_request\<lparr>sensor_type := ''water''\<rparr>)) = None"
    by code_simp
  have c: "check_dates example_zeros (example_request\<lparr>sensor_type := ''water''\<rparr>) = Inr ()"
    by code_simp
  from unknown_sensor_type_fails [OF v, of example_zeros example_engine jan_4 example_db] c
  have "fst (get_queryset example_zeros example_engine jan_4 example_db
            (example_request\<lparr>sensor_type := ''water''\<rparr>)) = Inl (KeyError ''water'')"
    by (auto simp: example_request_def)
  with v c show ?thesis by blast
qed

text \<open>
  The claim as the specification states it fails for \<^verbatim>\<open>GET /stats/water\<close> with valid
  dates: the view raises \<^verbatim>\<open>KeyError\<close>, which is not Not Found.
\<close>

theorem unknown_sensor_type_counterexample:
  "value_types ''water'' = None
   \<and> get_queryset example_zeros example_engine jan_4 example_db (example_request\<lparr>sensor_type := ''water''\<rparr>) =
       (Inl (KeyError ''water''), example_db)
   \<and> KeyError ''water'' \<noteq> NotFound"
  by code_simp

lemma stat_groups_iff:
  "(k, g) \<in> set (stat_groups trunc wanted cities s e rows) \<longleftrightarrow>
     k \<in> group_key trunc ` set (selected_rows wanted cities s e rows)
     \<and> g = filter (\<lambda>r. group_key trunc r = k) (selected_rows wanted cities s e rows)"
  by (simp add: stat_groups_def group_by_iff)

lemma contributes_iff:
  "(\<exists>k g. (k, g) \<in> set (stat_groups trunc wanted cities s e rows) \<and> r \<in> set g)
     \<longleftrightarrow> r \<in> set rows \<and> where_clause wanted cities s e r"
proof
  assume "\<exists>k g. (k, g) \<in> set (stat_groups trunc wanted cities s e rows) \<and> r \<in> set g"
  then obtain k g where "(k, g) \<in> set (stat_groups trunc wanted cities s e rows)" "r \<in> set g"
    by blast
  then have "r \<in> set (selected_rows wanted cities s e rows)"
    unfolding stat_groups_def using group_by_member by fastforce
  then show "r \<in> set rows \<and> where_clause wanted cities s e r"
    by (simp add: selected_rows_def)
next
  assume "r \<in> set rows \<and> where_clause wanted cities s e r"
  then have "r \<in> set (selected_rows wanted cities s e rows)"
    by (simp add: selected_rows_def)
  then show "\<exists>k g. (k, g) \<in> set (stat_groups trunc wanted cities s e rows) \<and> r \<in> set g"
    unfolding stat_groups_def using group_by_covers by fast
qed

text \<open>
  The window of the statistics query is closed at both ends: a stored reading contributes
  to a group of the aggregation exactly when its value type is one of the wanted ones,
  its text passes the numeric filter, its city is one of the wanted ones (when cities are
  given) and its timestamp \<open>t\<close> satisfies \<open>start \<le> t \<le> end\<close>.
\<close>

lemma closed_window:
  assumes "r \<in> set rows"
  shows "(\<exists>k g. (k, g) \<in> set (stat_groups trunc wanted cities start end_date rows) \<and> r \<in> set g)
         \<longleftrightarrow> (v_value_type r \<in> set wanted
              \<and> matches stats_value_regex (v_value r)
              \<and> (cities = [] \<or> sl_city r \<in> set cities)
              \<and> start \<le> sd_timestamp r \<and> sd_timestamp r \<le> end_date)"
  unfolding contributes_iff using assms by (auto simp: where_clause_def)

text \<open>
  C2.  The statement compares \<^verbatim>\<open>sd."timestamp" <= to_date\<close>, so the reading stamped at the
  end of the window is aggregated, against the half-open window of the specification and
  against the comment of the view on the window of a request with \<^verbatim>\<open>from\<close> alone
  (\<^verbatim>\<open>Get data from_date until the end of day yesterday which is the beginning of today\<close>).
  In \<open>example_db\<close> a reading of P1 is stamped 2023-01-04T00:00 exactly.

  \<^item> \<^verbatim>\<open>GET /stats/air?from=2023-01-03\<close> at 2023-01-04T10:00: the window resolves to
    2023-01-03T00:00 and 2023-01-04T00:00, the beginning of today, and the reading stamped
    today at 00:00 is returned, as a bucket of today.

  \<^item> \<^verbatim>\<open>GET /stats/air?from=2023-01-01&to=2023-01-03\<close>: the window resolves to
    2023-01-01T00:00 and 2023-01-04T00:00, and the same reading is returned, as a bucket of
    the day after \<^verbatim>\<open>to\<close>.
\<close>

theorem window_end_is_included:
  "sd_timestamp (hd (readings example_db)) = jan_4
   \<and> beginning_of_today (jan_4 + hours 10) = jan_4
   \<and> resolve_window example_zeros (jan_4 + hours 10)
        (example_request\<lparr>from_param := Some (code_points ''2023-01-03''), to_param := None\<rparr>)
       = Inr (jan_4 - hours 24, jan_4)
   \<and> fst (get_queryset example_zeros example_engine (jan_4 + hours 10) example_db
            (example_request\<lparr>from_param := Some (code_points ''2023-01-03''),
                             to_param := None\<rparr>)) =
       Inr [\<lparr> average = 5, minimum = 5, maximum = 5,
               start_datetime = jan_4, end_datetime = jan_4,
               city_name = ''Nairobi'', value_type = ''P1'', debug = ''5 '' \<rparr>,
            \<lparr> average = 123 / 2, minimum = 123 / 2, maximum = 123 / 2,
               start_datetime = jan_4 - hours 1, end_datetime = jan_4 - hours 1,
               city_name = ''Lagos'', value_type = ''humidity'', debug = ''61.5 '' \<rparr>]
   \<and> resolve_window example_zeros jan_4 example_request = Inr (jan_4 - hours 72, jan_4)
   \<and> fst (get_queryset example_zeros example_engine jan_4 example_db example_request) =
       Inr [\<lparr> average = 5, minimum = 5, maximum = 5,
               start_datetime = jan_4, end_datetime = jan_4,
               city_name = ''Nairobi'', value_type = ''P1'', debug = ''5 '' \<rparr>,
            \<lparr> average = 123 / 2, minimum = 123 / 2, maximum = 123 / 2,
               start_datetime = jan_4 - hours 1, end_datetime = jan_4 - hours 1,
               city_name = ''Lagos'', value_type = ''humidity'', debug = ''61.5 '' \<rparr>]"
  by code_simp

lemma select_row_value_type:
  "select_row eng ((b, vt, c), g) = Inr row \<Longrightarrow> value_type row = vt"
  by (auto simp: select_row_def split: option.splits)

lemma stat_groups_key_type:
  assumes "((b, vt, c), g) \<in> set (stat_groups trunc wanted cities s e rows)"
  shows "vt \<in> set wanted"
proof -
  from assms obtain r where "r \<in> set (selected_rows wanted cities s e rows)"
    "group_key trunc r = (b, vt, c)"
    by (auto simp: stat_groups_iff)
  then show ?thesis by (auto simp: selected_rows_def where_clause_def group_key_def)
qed

lemma cursor_execute_rows:
  assumes "cursor_execute eng d wanted cities s e unit = (Inr out, d')"
  shows "map Inr out = map (select_row eng)
             (stat_groups (\<lambda>t. the (date_trunc eng unit t)) wanted cities s e (readings d))"
proof -
  from assms have "collect (map (select_row eng)
      (stat_groups (\<lambda>t. the (date_trunc eng unit t)) wanted cities s e (readings d))) = Inr out"
    by (simp add: cursor_execute_def Let_def split: if_splits)
  then have "map (select_row eng)
      (stat_groups (\<lambda>t. the (date_trunc eng unit t)) wanted cities s e (readings d)) = map Inr out"
    by (simp only: collect_rows)
  then show ?thesis by (rule sym)
qed

lemma rows_of_groups:
  assumes "map Inr out = map f groups"
  shows "(\<forall>row \<in> set out. \<exists>kg \<in> set groups. f kg = Inr row)
       \<and> (\<forall>kg \<in> set groups. \<exists>row \<in> set out. f kg = Inr row)"
proof -
  from assms have "Inr ` set out = f ` set groups" by (metis set_map)
  then show ?thesis by (metis (no_types, lifting) imageE imageI)
qed

lemma cursor_execute_value_types:
  assumes "cursor_execute eng d wanted cities s e unit = (Inr out, d')" and "row \<in> set out"
  shows "value_type row \<in> set wanted"
proof -
  from assms(1) have "map Inr out = map (select_row eng)
      (stat_groups (\<lambda>t. the (date_trunc eng unit t)) wanted cities s e (readings d))"
    by (rule cursor_execute_rows)
  from rows_of_groups [OF this] assms(2) obtain kg where kg:
    "kg \<in> set (stat_groups (\<lambda>t. the (date_trunc eng unit t)) wanted cities s e (readings d))"
    "select_row eng kg = Inr row" by blast
  obtain b vt c g where p: "kg = ((b, vt, c), g)" by (metis prod_cases3 surj_pair)
  from kg(2) have "value_type row = vt" unfolding p by (rule select_row_value_type)
  moreover from kg(1) have "vt \<in> set wanted" unfolding p by (rule stat_groups_key_type)
  ultimately show ?thesis by simp
qed

text \<open>
  C10.  For a known \<^verbatim>\<open>sensor_type\<close>: when the \<^verbatim>\<open>value_type\<close> parameter is given, the tags
  of the filter are the upper-cased tags of the parameter that are also upper-cased
  allowed tags, so each of them is its own upper case; a reading whose stored value type
  has a lower-case letter is then never selected, and no row of the result carries such
  a value type.  When the parameter is not given, the filter is the list of the allowed
  tags in their own case.
\<close>

theorem value_type_filter_is_upper_case:
  assumes "value_types (sensor_type req) = Some allowed"
  shows "(truthy (value_type_param req) \<longrightarrow>
            (\<exists>tags. filter_value_types req = Inr tags
               \<and> set tags = set (split CHR '','' (upper (text_of (value_type_param req))))
                              \<inter> set (map upper allowed)
               \<and> (\<forall>x \<in> set tags. upper x = x)
               \<and> (\<forall>r cities s e. upper (v_value_type r) \<noteq> v_value_type r
                      \<longrightarrow> \<not> where_clause tags cities s e r))
            \<and> (\<forall>out d'. get_queryset zeros eng now d req = (Inr out, d')
                   \<longrightarrow> (\<forall>row \<in> set out. upper (value_type row) = value_type row)))
       \<and> (\<not> truthy (value_type_param req) \<longrightarrow> filter_value_types req = Inr allowed)"
proof (intro conjI impI)
  assume "\<not> truthy (value_type_param req)"
  with assms show "filter_value_types req = Inr allowed"
    by (simp add: filter_value_types_def)
next
  assume t: "truthy (value_type_param req)"
  define tags where "tags = filter (\<lambda>x. x \<in> set (map upper allowed))
     (remdups (split CHR '','' (upper (text_of (value_type_param req)))))"
  have f: "filter_value_types req = Inr tags"
    using assms t by (simp add: filter_value_types_def tags_def)
  have s: "set tags = set (split CHR '','' (upper (text_of (value_type_param req))))
                              \<inter> set (map upper allowed)"
    by (auto simp: tags_def)
  have u: "\<forall>x \<in> set tags. upper x = x"
    using s by (auto simp: upper_idem)
  have w: "\<forall>r cities s e. upper (v_value_type r) \<noteq> v_value_type r
                      \<longrightarrow> \<not> where_clause tags cities s e r"
    using u by (auto simp: where_clause_def)
  from f s u w show "\<exists>tags. filter_value_types req = Inr tags
               \<and> set tags = set (split CHR '','' (upper (text_of (value_type_param req))))
                              \<inter> set (map upper allowed)
               \<and> (\<forall>x \<in> set tags. upper x = x)
               \<and> (\<forall>r cities s e. upper (v_value_type r) \<noteq> v_value_type r
                      \<longrightarrow> \<not> where_clause tags cities s e r)"
    by blast
  show "\<forall>out d'. get_queryset zeros eng now d req = (Inr out, d')
                   \<longrightarrow> (\<forall>row \<in> set out. upper (value_type row) = value_type row)"
  proof (intro allI impI ballI)
    fix out d' row
    assume g: "get_queryset zeros eng now d req = (Inr out, d')" and r: "row \<in> set out"
    from g f obtain cities s e unit where
      "cursor_execute eng d tags cities s e unit = (Inr out, d')"
      by (auto simp: get_queryset_def Let_def split: sum.splits prod.splits)
    then have "value_type row \<in> set tags" using r by (rule cursor_execute_value_types)
    with u show "upper (value_type row) = value_type row" by blast
  qed
qed

theorem value_type_filter_is_upper_case_witness:
  "value_types (sensor_type example_request) = Some [''P1'', ''P2'', ''humidity'', ''temperature'']
   \<and> truthy (value_type_param (example_request\<lparr>value_type_param := Some ''humidity,p1''\<rparr>))
   \<and> filter_value_types (example_request\<lparr>value_type_param := Some ''humidity,p1''\<rparr>)
        = Inr [''HUMIDITY'', ''P1'']
   \<and> ''humidity'' \<in> set value_type_choices
   \<and> \<not> where_clause [''HUMIDITY'', ''P1''] [] (jan_4 - hours 72) jan_4
          \<lparr> v_value_type = ''humidity'', v_value = ''61.5'', sd_timestamp = jan_4 - hours 1,
            sl_city = ''Lagos'' \<rparr>
   \<and> \<not> truthy (value_type_param example_request)
   \<and> filter_value_types example_request = Inr [''P1'', ''P2'', ''humidity'', ''temperature'']"
proof -
  let ?req = "example_request\<lparr>value_type_param := Some ''humidity,p1''\<rparr>"
  let ?r = "\<lparr> v_value_type = ''humidity'', v_value = ''61.5'', sd_timestamp = jan_4 - hours 1,
            sl_city = ''Lagos'' \<rparr>"
  have a: "value_types (sensor_type ?req) = Some [''P1'', ''P2'', ''humidity'', ''temperature'']"
    and a': "value_types (sensor_type example_request)
               = Some [''P1'', ''P2'', ''humidity'', ''temperature'']"
    by (simp_all add: example_request_def value_types_def)
  have t: "truthy (value_type_param ?req)" and n: "\<not> truthy (value_type_param example_request)"
    by (simp_all add: truthy_def example_request_def)
  have f: "filter_value_types ?req = Inr [''HUMIDITY'', ''P1'']"
    by code_simp
  have l: "upper (v_value_type ?r) \<noteq> v_value_type ?r"
    by code_simp
  have c: "''humidity'' \<in> set value_type_choices"
    by (simp add: value_type_choices_def)
  from value_type_filter_is_upper_case [OF a, of example_zeros example_engine jan_4 example_db] t f l
  have "\<not> where_clause [''HUMIDITY'', ''P1''] [] (jan_4 - hours 72) jan_4 ?r"
    by auto
  moreover from value_type_filter_is_upper_case [OF a', of example_zeros example_engine jan_4 example_db] n
  have "filter_value_types example_request = Inr [''P1'', ''P2'', ''humidity'', ''temperature'']"
    by blast
  ultimately show ?thesis using a' t f c n by blast
qed

lemma Min_le_Max_list: "xs \<noteq> [] \<Longrightarrow> Min (set xs) \<le> (Max (set xs) :: 'a :: linorder)"
  by (simp add: Min_le_iff)

lemma select_row_bounds:
  "g \<noteq> [] \<Longrightarrow> select_row eng (k, g) = Inr row \<Longrightarrow> start_datetime row \<le> end_datetime row"
  by (cases k) (auto simp: select_row_def Min_le_Max_list split: option.splits)

text \<open>
  C4.  When the statistics query succeeds, its rows are the rows of the groups, one for
  each group.  Every group holds at least one reading (\<^verbatim>\<open>COUNT(*)\<close> is at least 1), all
  its readings passed the numeric filter, and the start of its row is not after its end.
  A group key under which no stored reading has a text that passes the numeric filter
  has no group, hence no row.
\<close>

theorem buckets_have_samples:
  assumes "cursor_execute eng d wanted cities s e unit = (Inr out, d')"
  shows "map Inr out = map (select_row eng)
                 (stat_groups (\<lambda>t. the (date_trunc eng unit t)) wanted cities s e (readings d))
       \<and> (\<forall>kg \<in> set (stat_groups (\<lambda>t. the (date_trunc eng unit t)) wanted cities s e (readings d)).
             1 \<le> count_star (snd kg)
             \<and> (\<forall>r \<in> set (snd kg). matches stats_value_regex (v_value r))
             \<and> (\<exists>row \<in> set out. select_row eng kg = Inr row
                    \<and> start_datetime row \<le> end_datetime row))
       \<and> (\<forall>k. (\<forall>r \<in> set (readings d).
                  group_key (\<lambda>t. the (date_trunc eng unit t)) r = k
                    \<longrightarrow> \<not> matches stats_value_regex (v_value r))
              \<longrightarrow> k \<notin> fst ` set (stat_groups (\<lambda>t. the (date_trunc eng unit t))
                                      wanted cities s e (readings d)))"
proof (intro conjI ballI allI impI)
  show "map Inr out = map (select_row eng)
                 (stat_groups (\<lambda>t. the (date_trunc eng unit t)) wanted cities s e (readings d))"
    using assms by (rule cursor_execute_rows)
next
  fix kg
  assume kg: "kg \<in> set (stat_groups (\<lambda>t. the (date_trunc eng unit t)) wanted cities s e (readings d))"
  obtain k g where p: "kg = (k, g)" by (cases kg)
  with kg have ne: "g \<noteq> []"
    unfolding stat_groups_def using group_by_nonempty by fast
  then show "1 \<le> count_star (snd kg)"
    using p by (cases g) (simp_all add: count_star_def)
  from assms have "map Inr out = map (select_row eng)
                 (stat_groups (\<lambda>t. the (date_trunc eng unit t)) wanted cities s e (readings d))"
    by (rule cursor_execute_rows)
  from rows_of_groups [OF this] kg
  obtain row where row: "row \<in> set out" "select_row eng kg = Inr row"
    by blast
  from ne row(2) have "start_datetime row \<le> end_datetime row"
    unfolding p by (rule select_row_bounds)
  with row show "\<exists>row \<in> set out. select_row eng kg = Inr row
                    \<and> start_datetime row \<le> end_datetime row"
    by blast
  fix r
  assume "r \<in> set (snd kg)"
  with kg p have "\<exists>k g. (k, g) \<in> set (stat_groups (\<lambda>t. the (date_trunc eng unit t))
                               wanted cities s e (readings d)) \<and> r \<in> set g"
    by (intro exI[of _ k] exI[of _ g]) simp
  then have "r \<in> set (readings d) \<and> where_clause wanted cities s e r"
    by (simp only: contributes_iff)
  then show "matches stats_value_regex (v_value r)"
    by (simp add: where_clause_def)
next
  fix k
  assume none: "\<forall>r \<in> set (readings d).
                  group_key (\<lambda>t. the (date_trunc eng unit t)) r = k
                    \<longrightarrow> \<not> matches stats_value_regex (v_value r)"
  show "k \<notin> fst ` set (stat_groups (\<lambda>t. the (date_trunc eng unit t))
                                      wanted cities s e (readings d))"
  proof
    assume "k \<in> fst ` set (stat_groups (\<lambda>t. the (date_trunc eng unit t))
                                      wanted cities s e (readings d))"
    then obtain g where
      "(k, g) \<in> set (stat_groups (\<lambda>t. the (date_trunc eng unit t)) wanted cities s e (readings d))"
      by auto
    then obtain r where "r \<in> set (selected_rows wanted cities s e (readings d))"
      "group_key (\<lambda>t. the (date_trunc eng unit t)) r = k"
      by (auto simp: stat_groups_iff)
    with none show False
      by (auto simp: selected_rows_def where_clause_def)
  qed
qed

theorem buckets_have_samples_witness:
  "cursor_execute example_engine example_db [''P1'', ''P2'', ''humidity'', ''temperature''] []
       (jan_4 - hours 72) jan_4 ''day''
     = (Inr [\<lparr> average = 5, minimum = 5, maximum = 5,
               start_datetime = jan_4, end_datetime = jan_4,
               city_name = ''Nairobi'', value_type = ''P1'', debug = ''5 '' \<rparr>,
            \<lparr> average = 123 / 2, minimum = 123 / 2, maximum = 123 / 2,
               start_datetime = jan_4 - hours 1, end_datetime = jan_4 - hours 1,
               city_name = ''Lagos'', value_type = ''humidity'', debug = ''61.5 '' \<rparr>],
        example_db\<lparr>executed := 1\<rparr>)
   \<and> (jan_4 - 2 * us_per_day, ''P1'', ''Nairobi'')
        \<notin> fst ` set (stat_groups (\<lambda>t. the (date_trunc example_engine ''day'' t))
                       [''P1'', ''P2'', ''humidity'', ''temperature''] []
                       (jan_4 - hours 72) jan_4 (readings example_db))"
proof -
  have ex: "cursor_execute example_engine example_db [''P1'', ''P2'', ''humidity'', ''temperature''] []
       (jan_4 - hours 72) jan_4 ''day''
     = (Inr [\<lparr> average = 5, minimum = 5, maximum = 5,
               start_datetime = jan_4, end_datetime = jan_4,
               city_name = ''Nairobi'', value_type = ''P1'', debug = ''5 '' \<rparr>,
            \<lparr> average = 123 / 2, minimum = 123 / 2, maximum = 123 / 2,
               start_datetime = jan_4 - hours 1, end_datetime = jan_4 - hours 1,
               city_name = ''Lagos'', value_type = ''humidity'', debug = ''61.5 '' \<rparr>],
        example_db\<lparr>executed := 1\<rparr>)"
    by code_simp
  have none: "\<forall>r \<in> set (readings example_db).
      group_key (\<lambda>t. the (date_trunc example_engine ''day'' t)) r
         = (jan_4 - 2 * us_per_day, ''P1'', ''Nairobi'')
      \<longrightarrow> \<not> matches stats_value_regex (v_value r)"
    by code_simp
  from buckets_have_samples [OF ex] none
  have "(jan_4 - 2 * us_per_day, ''P1'', ''Nairobi'')
        \<notin> fst ` set (stat_groups (\<lambda>t. the (date_trunc example_engine ''day'' t))
                       [''P1'', ''P2'', ''humidity'', ''temperature''] []
                       (jan_4 - hours 72) jan_4 (readings example_db))"
    by blast
  with ex show ?thesis by blast
qed


text \<open>
  The arithmetic of the engine can fail: when the text of a selected reading is out of the
  range of \<^verbatim>\<open>float\<close>, the statement fails with \<^verbatim>\<open>DataError\<close> and the view returns no row.
\<close>

lemma every_missing: "None \<in> set xs \<Longrightarrow> every xs = None"
  by (induction xs) (auto split: option.splits)

lemma select_row_error: "select_row eng kg = Inl e \<Longrightarrow> e = DataError"
  by (auto simp: select_row_def split: prod.splits option.splits)

lemma collect_error: "collect xs = Inl e \<Longrightarrow> Inl e \<in> set xs"
  by (induction xs) (auto split: sum.splits)

lemma out_of_range_value_is_data_error:
  assumes "wanted \<noteq> []" and "r \<in> set (readings d)" and "where_clause wanted cities s e r"
    and "cast_float eng (v_value r) = None"
  shows "fst (cursor_execute eng d wanted cities s e unit) = Inl DataError"
proof (cases "list_ex (\<lambda>r. date_trunc eng unit (sd_timestamp r) = None)
                (selected_rows wanted cities s e (readings d))")
  case True
  with assms(1) show ?thesis by (simp add: cursor_execute_def Let_def)
next
  case False
  let ?groups = "stat_groups (\<lambda>t. the (date_trunc eng unit t)) wanted cities s e (readings d)"
  from False assms(1) have c: "fst (cursor_execute eng d wanted cities s e unit)
      = collect (map (select_row eng) ?groups)"
    by (simp add: cursor_execute_def Let_def)
  from assms(2,3) obtain k g where kg: "(k, g) \<in> set ?groups" "r \<in> set g"
    using contributes_iff [of "\<lambda>t. the (date_trunc eng unit t)" wanted cities s e "readings d" r]
    by blast
  from kg(2) assms(4) have "None \<in> set (map (\<lambda>r. cast_float eng (v_value r)) g)"
    by force
  then have "every (map (\<lambda>r. cast_float eng (v_value r)) g) = None"
    by (rule every_missing)
  then have "select_row eng (k, g) = Inl DataError"
    by (cases k) (simp add: select_row_def)
  with kg(1) have m: "Inl DataError \<in> set (map (select_row eng) ?groups)"
    by force
  show ?thesis
  proof (cases "collect (map (select_row eng) ?groups)")
    case (Inl e')
    then have "Inl e' \<in> set (map (select_row eng) ?groups)" by (rule collect_error)
    then obtain kg' where "select_row eng kg' = Inl e'" by auto
    then have "e' = DataError" by (rule select_row_error)
    with Inl c show ?thesis by simp
  next
    case (Inr rows)
    then have "map (select_row eng) ?groups = map Inr rows" by (simp only: collect_rows)
    with m show ?thesis by auto
  qed
qed
lemma strptime_midnight:
  "strptime zeros s = Inr t \<Longrightarrow> \<exists>y m d. midnight y m d = Inr t"
  by (auto simp: strptime_def split: list.splits prod.splits if_splits)

lemma month_cases:
  "1 \<le> m \<Longrightarrow> m \<le> 12 \<Longrightarrow>
     m = 1 \<or> m = 2 \<or> m = 3 \<or> m = 4 \<or> m = 5 \<or> m = 6 \<or> m = 7 \<or> m = 8 \<or> m = 9 \<or> m = 10
     \<or> m = 11 \<or> m = (12::int)"
  by arith

lemma day_of_year_bounds:
  assumes "1 \<le> m" "m \<le> 12" "1 \<le> d" "d \<le> days_in_month y m"
  shows "1 \<le> days_before_month y m + d
       \<and> days_before_month y m + d \<le> (if is_leap y then 366 else 365)"
  using month_cases [OF assms(1,2)] assms(3,4)
  by (elim disjE) (simp_all add: days_before_month_def days_in_month_def split: if_splits)

lemma days_before_year_bounds:
  assumes "1 \<le> y" "y \<le> 9999"
  shows "0 \<le> days_before_year y
       \<and> days_before_year y + (if is_leap y then 366 else 365) \<le> 3652059"
proof (cases "y = 9999")
  case True
  then show ?thesis by (simp add: days_before_year_def is_leap_def)
next
  case False
  define a where "a = y - 1"
  from False assms have a: "0 \<le> a" "a \<le> 9997" by (simp_all add: a_def)
  have d4: "0 \<le> a div 4" "a div 4 \<le> 2499"
    using a zdiv_mono1 [of a 9997 4] by simp_all
  have d100: "0 \<le> a div 100" "a div 100 \<le> a"
    using a zdiv_mono2 [of a 1 100] by simp_all
  have d400: "0 \<le> a div 400" "a div 400 \<le> 24"
    using a zdiv_mono1 [of a 9997 400] by simp_all
  have e: "days_before_year y = a * 365 + a div 4 - a div 100 + a div 400"
    by (simp add: days_before_year_def a_def Let_def)
  have l: "(if is_leap y then 366 else 365) \<le> (366::int)" by simp
  from a d4 d100 d400 l show ?thesis unfolding e by linarith
qed

lemma midnight_ordinal:
  assumes "midnight y m d = Inr t"
  shows "\<exists>ord. t = ord * us_per_day \<and> 1 \<le> ord \<and> ord \<le> max_ordinal"
proof -
  from assms have v: "1 \<le> y" "y \<le> 9999" "1 \<le> m" "m \<le> 12" "1 \<le> d" "d \<le> days_in_month y m"
    and t: "t = ymd2ord y m d * us_per_day"
    by (auto simp: midnight_def split: if_splits)
  from day_of_year_bounds [OF v(3-6)] days_before_year_bounds [OF v(1,2)]
  have "1 \<le> ymd2ord y m d \<and> ymd2ord y m d \<le> max_ordinal"
    by (auto simp: ymd2ord_def max_ordinal_def split: if_splits)
  with t show ?thesis by blast
qed

lemma next_day:
  "1 \<le> ord \<Longrightarrow> ord < max_ordinal \<Longrightarrow>
     add_timedelta (ord * us_per_day) (hours 24) = Inr ((ord + 1) * us_per_day)"
  by (simp add: add_timedelta_def hours_def us_per_day_def Let_def algebra_simps)

text \<open>
  C3, as amended.  When both dates are given and parse, and the \<^verbatim>\<open>to\<close> date is not
  9999-12-31 (the last day a \<^verbatim>\<open>datetime\<close> can hold), the window runs from the midnight of
  the \<^verbatim>\<open>from\<close> date to the midnight of the \<^verbatim>\<open>to\<close> date plus 24 hours, which is the
  midnight that starts the next day.
\<close>

theorem both_dates_window:
  assumes "truthy (from_param req)" and "truthy (to_param req)"
    and "strptime zeros (text_of (from_param req)) = Inr from_midnight"
    and "strptime zeros (text_of (to_param req)) = Inr to_midnight"
    and "to_midnight \<noteq> max_ordinal * us_per_day"
  shows "resolve_window zeros now req = Inr (from_midnight, to_midnight + hours 24)
       \<and> (\<exists>y m d. midnight y m d = Inr from_midnight)
       \<and> (\<exists>y m d. midnight y m d = Inr to_midnight)
       \<and> to_midnight + hours 24 = (to_midnight div us_per_day + 1) * us_per_day"
proof -
  from assms(3) have f: "\<exists>y m d. midnight y m d = Inr from_midnight"
    by (rule strptime_midnight)
  from assms(4) have t: "\<exists>y m d. midnight y m d = Inr to_midnight"
    by (rule strptime_midnight)
  then obtain ord where o: "to_midnight = ord * us_per_day" "1 \<le> ord" "ord \<le> max_ordinal"
    using midnight_ordinal by blast
  with assms(5) have lt: "ord < max_ordinal" by auto
  have e: "add_timedelta to_midnight (hours 24) = Inr ((ord + 1) * us_per_day)"
    using o(1,2) lt by (simp add: next_day)
  have s: "(ord + 1) * us_per_day = to_midnight + hours 24"
    using o(1) by (simp add: hours_def us_per_day_def algebra_simps)
  have dv: "to_midnight div us_per_day = ord"
    using o(1) by (simp add: us_per_day_def)
  have "resolve_window zeros now req = Inr (from_midnight, to_midnight + hours 24)"
    using assms(1-4) e s
    by (simp add: resolve_window_def beginning_of_day_def end_of_day_def)
  with f t s dv show ?thesis by simp
qed

theorem both_dates_window_witness:
  "truthy (from_param example_request) \<and> truthy (to_param example_request)
   \<and> strptime example_zeros (code_points ''2023-01-01'') = midnight 2023 1 1
   \<and> strptime example_zeros (code_points ''2023-01-03'') = midnight 2023 1 3
   \<and> midnight 2023 1 1 = Inr (738521 * us_per_day)
   \<and> midnight 2023 1 3 = Inr (738523 * us_per_day)
   \<and> midnight 2023 1 4 = Inr (738524 * us_per_day)
   \<and> resolve_window example_zeros jan_4 example_request = Inr (738521 * us_per_day, 738524 * us_per_day)"
proof -
  have a: "truthy (from_param example_request)" and b: "truthy (to_param example_request)"
    by (simp_all add: example_request_def truthy_def code_points_def)
  have m: "midnight 2023 1 1 = Inr (738521 * us_per_day)"
    "midnight 2023 1 3 = Inr (738523 * us_per_day)"
    "midnight 2023 1 4 = Inr (738524 * us_per_day)"
    "strptime example_zeros (code_points ''2023-01-01'') = midnight 2023 1 1"
    "strptime example_zeros (code_points ''2023-01-03'') = midnight 2023 1 3"
    by code_simp+
  have c: "strptime example_zeros (text_of (from_param example_request)) = Inr (738521 * us_per_day)"
    and d: "strptime example_zeros (text_of (to_param example_request)) = Inr (738523 * us_per_day)"
    using m by (simp_all add: example_request_def text_of_def)
  have e: "738523 * us_per_day \<noteq> max_ordinal * us_per_day"
    by (simp add: us_per_day_def max_ordinal_def)
  from both_dates_window [OF a b c d e, of jan_4]
  have "resolve_window example_zeros jan_4 example_request = Inr (738521 * us_per_day, 738524 * us_per_day)"
    by (simp add: hours_def us_per_day_def)
  with a b m show ?thesis by simp
qed

text \<open>
  For the valid dates \<^verbatim>\<open>from=2023-01-01&to=9999-12-31\<close> there is no window: adding 24
  hours to the midnight of the last day raises \<^verbatim>\<open>OverflowError\<close>, after the date checks
  have passed.
\<close>

theorem both_dates_window_counterexample:
  "check_dates example_zeros (example_request\<lparr>to_param := Some (code_points ''9999-12-31'')\<rparr>) = Inr ()
   \<and> strptime example_zeros (code_points ''9999-12-31'') = Inr (max_ordinal * us_per_day)
   \<and> resolve_window example_zeros jan_4 (example_request\<lparr>to_param := Some (code_points ''9999-12-31'')\<rparr>) = Inl OverflowError
   \<and> get_queryset example_zeros example_engine jan_4 example_db (example_request\<lparr>to_param := Some (code_points ''9999-12-31'')\<rparr>)
       = (Inl OverflowError, example_db)"
  by code_simp

section \<open>Properties of the date parser\<close>

lemma classes:
  "is_char CHR ''0'' c \<longleftrightarrow> c = 48" "is_char CHR ''1'' c \<longleftrightarrow> c = 49"
  "is_char CHR ''3'' c \<longleftrightarrow> c = 51" "is_char CHR ''-'' c \<longleftrightarrow> c = 45"
  "is_char CHR '' '' c \<longleftrightarrow> c = 32"
  "in_range CHR ''0'' CHR ''9'' c \<longleftrightarrow> 48 \<le> c \<and> c \<le> 57"
  "in_range CHR ''1'' CHR ''9'' c \<longleftrightarrow> 49 \<le> c \<and> c \<le> 57"
  "in_range CHR ''0'' CHR ''2'' c \<longleftrightarrow> 48 \<le> c \<and> c \<le> 50"
  "in_range CHR ''0'' CHR ''1'' c \<longleftrightarrow> 48 \<le> c \<and> c \<le> 49"
  "in_range CHR ''1'' CHR ''2'' c \<longleftrightarrow> 49 \<le> c \<and> c \<le> 50"
  by (simp_all add: is_char_def in_range_def)

lemma code_points_dash: "code_points ''-'' = [45]"
  by (simp add: code_points_def)

lemma ascii_digit_iff: "ascii_digit c \<longleftrightarrow> 48 \<le> c \<and> c \<le> 57"
  by (simp add: ascii_digit_def classes)

lemma decimal_run:
  assumes "decimal zeros c = Some v"
  shows "\<exists>z \<in> set (48 # zeros). z \<le> c \<and> c < z + 10 \<and> v = c - z"
proof -
  from assms obtain z rest where
    f: "filter (\<lambda>z. z \<le> c \<and> c < z + 10) (48 # zeros) = z # rest" and v: "v = c - z"
    unfolding decimal_def by (cases "filter (\<lambda>z. z \<le> c \<and> c < z + 10) (48 # zeros)") auto
  from f have "z \<in> set (filter (\<lambda>z. z \<le> c \<and> c < z + 10) (48 # zeros))"
    by (simp only: list.set_intros)
  then have "z \<in> set (48 # zeros)" "z \<le> c \<and> c < z + 10"
    by (simp_all only: set_filter mem_Collect_eq)
  with v show ?thesis by blast
qed

lemma decimal_ascii: "48 \<le> c \<Longrightarrow> c \<le> 57 \<Longrightarrow> decimal zeros c = Some (c - 48)"
  by (simp add: decimal_def)

lemma is_decimal_ascii: "48 \<le> c \<Longrightarrow> c \<le> 57 \<Longrightarrow> is_decimal zeros c"
  by (simp add: is_decimal_def decimal_ascii)

lemma digit_value_ascii: "48 \<le> c \<Longrightarrow> c \<le> 57 \<Longrightarrow> digit_value zeros c = c - 48"
  by (simp add: digit_value_def decimal_ascii)

lemma digit_value_bounds: "0 \<le> digit_value zeros c \<and> digit_value zeros c \<le> 9"
proof (cases "decimal zeros c")
  case None
  then show ?thesis by (simp add: digit_value_def)
next
  case (Some v)
  from decimal_run [OF this] Some show ?thesis by (auto simp: digit_value_def)
qed

text \<open>A decimal digit is not below the digits of ASCII when the other runs lie beyond ASCII.\<close>

lemma is_decimal_above:
  assumes "list_all (\<lambda>z. 128 \<le> z) zeros" and "is_decimal zeros c"
  shows "48 \<le> c"
proof -
  from assms(2) obtain v where "decimal zeros c = Some v" by (auto simp: is_decimal_def)
  from decimal_run [OF this] obtain z where z: "z \<in> set (48 # zeros)" "z \<le> c" by blast
  from z(1) assms(1) have "48 \<le> z" by (auto simp: list_all_iff)
  with z(2) show ?thesis by simp
qed

lemma py_int_one: "a \<noteq> 32 \<Longrightarrow> py_int zeros [a] = digit_value zeros a"
  by (simp add: py_int_def)

lemma py_int_two:
  "a \<noteq> 32 \<Longrightarrow> b \<noteq> 32 \<Longrightarrow> py_int zeros [a, b] = 10 * digit_value zeros a + digit_value zeros b"
  by (simp add: py_int_def)

lemma py_int_four:
  "a \<noteq> 32 \<Longrightarrow> b \<noteq> 32 \<Longrightarrow> c \<noteq> 32 \<Longrightarrow> d \<noteq> 32 \<Longrightarrow>
     py_int zeros [a, b, c, d]
       = 1000 * digit_value zeros a + 100 * digit_value zeros b + 10 * digit_value zeros c
           + digit_value zeros d"
  by (simp add: py_int_def)

lemma py_int_blank: "py_int zeros [32, c] = py_int zeros [c]"
  by (simp add: py_int_def)

lemma py_int_ascii_one: "48 \<le> a \<Longrightarrow> a \<le> 57 \<Longrightarrow> py_int zeros [a] = a - 48"
  by (simp add: py_int_one digit_value_ascii)

lemma py_int_ascii_two:
  "48 \<le> a \<Longrightarrow> a \<le> 57 \<Longrightarrow> 48 \<le> b \<Longrightarrow> b \<le> 57 \<Longrightarrow>
     py_int zeros [a, b] = 10 * (a - 48) + (b - 48)"
  by (simp add: py_int_two digit_value_ascii)

lemma four_digits:
  assumes "length ys = 4" "list_all P ys"
  obtains a b c d where "ys = [a, b, c, d]" "P a" "P b" "P c" "P d"
proof -
  from assms(1) obtain a b c d where "ys = [a, b, c, d]"
    by (auto simp: length_Suc_conv numeral_eq_Suc)
  with assms(2) that show thesis by simp
qed

lemma year_range:
  assumes "list_all (\<lambda>z. 128 \<le> z) zeros" and "length ys = 4" "list_all (is_decimal zeros) ys"
  shows "0 \<le> py_int zeros ys \<and> py_int zeros ys \<le> 9999"
proof -
  from assms(2,3) obtain a b c d where y: "ys = [a, b, c, d]"
    and d: "is_decimal zeros a" "is_decimal zeros b" "is_decimal zeros c" "is_decimal zeros d"
    by (rule four_digits)
  from d have n: "a \<noteq> 32" "b \<noteq> 32" "c \<noteq> 32" "d \<noteq> 32"
    using is_decimal_above [OF assms(1)] by fastforce+
  from digit_value_bounds [of zeros a] digit_value_bounds [of zeros b]
    digit_value_bounds [of zeros c] digit_value_bounds [of zeros d]
  show ?thesis unfolding y py_int_four [OF n] by linarith
qed

lemma re_Y_append:
  assumes "length ys = 4" "list_all (is_decimal zeros) ys"
  shows "re_Y zeros (ys @ r) = [(ys, r)]"
proof -
  from assms obtain a b c d where "ys = [a, b, c, d]"
    "is_decimal zeros a" "is_decimal zeros b" "is_decimal zeros c" "is_decimal zeros d"
    by (rule four_digits)
  then show ?thesis by simp
qed

lemma re_Y_mem:
  "(y, r) \<in> set (re_Y zeros s) \<Longrightarrow> s = y @ r \<and> length y = 4 \<and> list_all (is_decimal zeros) y"
  by (induction zeros s rule: re_Y.induct) (auto split: if_splits)

lemma re_dash_cons: "re_dash (45 # r) = [([45], r)]"
  by (simp add: re_dash_def classes)

lemma re_dash_mem: "(x, r) \<in> set (re_dash s) \<Longrightarrow> s = 45 # r"
  by (cases s) (auto simp: re_dash_def classes split: if_splits)

lemma one_char_mem: "(x, r) \<in> set (one_char P s) \<Longrightarrow> \<exists>a. x = [a] \<and> P a \<and> s = a # r"
  by (cases s) (auto split: if_splits)

lemma two_chars_mem:
  "(x, r) \<in> set (two_chars P Q s) \<Longrightarrow> \<exists>a b. x = [a, b] \<and> P a \<and> Q b \<and> s = a # b # r"
  by (induction P Q s rule: two_chars.induct) (auto split: if_splits)

lemma one_or_two:
  "(length xs = 1 \<or> length xs = 2) \<longleftrightarrow> (\<exists>a. xs = [a]) \<or> (\<exists>a b. xs = [a, b])"
  by (auto simp: length_Suc_conv numeral_eq_Suc)

lemma month_arith:
  fixes a b :: int
  shows "48 \<le> a \<Longrightarrow> a \<le> 57 \<Longrightarrow> 48 \<le> b \<Longrightarrow> b \<le> 57 \<Longrightarrow>
    (1 \<le> 10 * (a - 48) + (b - 48) \<and> 10 * (a - 48) + (b - 48) \<le> 12) \<longleftrightarrow>
       (a = 48 \<and> 49 \<le> b) \<or> (a = 49 \<and> b \<le> 50)"
  by presburger

lemma day_arith:
  fixes a b :: int
  shows "48 \<le> a \<Longrightarrow> a \<le> 57 \<Longrightarrow> 48 \<le> b \<Longrightarrow> b \<le> 57 \<Longrightarrow>
    (1 \<le> 10 * (a - 48) + (b - 48) \<and> 10 * (a - 48) + (b - 48) \<le> 31) \<longleftrightarrow>
       (a = 51 \<and> b \<le> 49) \<or> (49 \<le> a \<and> a \<le> 50) \<or> (a = 48 \<and> 49 \<le> b)"
  by presburger

lemma month_text_one: "month_text [a] \<longleftrightarrow> 49 \<le> a \<and> a \<le> 57"
proof (cases "48 \<le> a \<and> a \<le> 57")
  case True
  then show ?thesis by (auto simp: month_text_def ascii_digit_iff py_int_ascii_one)
next
  case False
  then show ?thesis by (auto simp: month_text_def ascii_digit_iff)
qed

lemma month_text_two:
  "month_text [a, b] \<longleftrightarrow> (a = 48 \<and> 49 \<le> b \<and> b \<le> 57) \<or> (a = 49 \<and> 48 \<le> b \<and> b \<le> 50)"
proof (cases "(48 \<le> a \<and> a \<le> 57) \<and> (48 \<le> b \<and> b \<le> 57)")
  case True
  then have t: "48 \<le> a" "a \<le> 57" "48 \<le> b" "b \<le> 57" by simp_all
  have "month_text [a, b] \<longleftrightarrow>
          1 \<le> 10 * (a - 48) + (b - 48) \<and> 10 * (a - 48) + (b - 48) \<le> 12"
    using t by (simp add: month_text_def ascii_digit_iff py_int_ascii_two)
  also have "\<dots> \<longleftrightarrow> (a = 48 \<and> 49 \<le> b) \<or> (a = 49 \<and> b \<le> 50)"
    using t by (rule month_arith)
  also have "\<dots> \<longleftrightarrow> (a = 48 \<and> 49 \<le> b \<and> b \<le> 57) \<or> (a = 49 \<and> 48 \<le> b \<and> b \<le> 50)"
    using t by auto
  finally show ?thesis .
next
  case False
  then have "\<not> month_text [a, b]" by (auto simp: month_text_def ascii_digit_iff)
  moreover from False
  have "\<not> ((a = 48 \<and> 49 \<le> b \<and> b \<le> 57) \<or> (a = 49 \<and> 48 \<le> b \<and> b \<le> 50))"
    by auto
  ultimately show ?thesis by simp
qed

lemma day_text_one: "day_text zeros [a] \<longleftrightarrow> 49 \<le> a \<and> a \<le> 57"
proof (cases "48 \<le> a \<and> a \<le> 57")
  case True
  then show ?thesis by (auto simp: day_text_def ascii_digit_iff py_int_ascii_one)
next
  case False
  then show ?thesis by (auto simp: day_text_def ascii_digit_iff)
qed

lemma day_text_two_raw:
  "day_text zeros [a, b] \<longleftrightarrow>
     ((48 \<le> a \<and> a \<le> 57) \<and> (48 \<le> b \<and> b \<le> 57)
        \<and> 1 \<le> py_int [] [a, b] \<and> py_int [] [a, b] \<le> 31)
     \<or> (49 \<le> a \<and> a \<le> 50 \<and> is_decimal zeros b)
     \<or> (a = 32 \<and> 49 \<le> b \<and> b \<le> 57)"
  by (simp add: day_text_def ascii_digit_iff classes)

lemma day_text_two:
  "day_text zeros [a, b] \<longleftrightarrow>
     (a = 51 \<and> 48 \<le> b \<and> b \<le> 49) \<or> (49 \<le> a \<and> a \<le> 50 \<and> is_decimal zeros b)
     \<or> (a = 48 \<and> 49 \<le> b \<and> b \<le> 57) \<or> (a = 32 \<and> 49 \<le> b \<and> b \<le> 57)"
proof (cases "(48 \<le> a \<and> a \<le> 57) \<and> (48 \<le> b \<and> b \<le> 57)")
  case True
  then have t: "48 \<le> a" "a \<le> 57" "48 \<le> b" "b \<le> 57" by simp_all
  from t have db: "is_decimal zeros b" by (simp add: is_decimal_ascii)
  have "day_text zeros [a, b] \<longleftrightarrow>
          (1 \<le> 10 * (a - 48) + (b - 48) \<and> 10 * (a - 48) + (b - 48) \<le> 31)
          \<or> (49 \<le> a \<and> a \<le> 50)"
    using t db by (simp add: day_text_two_raw py_int_ascii_two)
  also have "\<dots> \<longleftrightarrow> ((a = 51 \<and> b \<le> 49) \<or> (49 \<le> a \<and> a \<le> 50) \<or> (a = 48 \<and> 49 \<le> b))
          \<or> (49 \<le> a \<and> a \<le> 50)"
    using day_arith [OF t] by simp
  also have "\<dots> \<longleftrightarrow> (a = 51 \<and> 48 \<le> b \<and> b \<le> 49) \<or> (49 \<le> a \<and> a \<le> 50 \<and> is_decimal zeros b)
     \<or> (a = 48 \<and> 49 \<le> b \<and> b \<le> 57) \<or> (a = 32 \<and> 49 \<le> b \<and> b \<le> 57)"
    using t db by auto
  finally show ?thesis .
next
  case False
  have "day_text zeros [a, b] \<longleftrightarrow>
       (49 \<le> a \<and> a \<le> 50 \<and> is_decimal zeros b) \<or> (a = 32 \<and> 49 \<le> b \<and> b \<le> 57)"
    using False unfolding day_text_two_raw by blast
  also have "\<dots> \<longleftrightarrow> (a = 51 \<and> 48 \<le> b \<and> b \<le> 49) \<or> (49 \<le> a \<and> a \<le> 50 \<and> is_decimal zeros b)
     \<or> (a = 48 \<and> 49 \<le> b \<and> b \<le> 57) \<or> (a = 32 \<and> 49 \<le> b \<and> b \<le> 57)"
    using False by auto
  finally show ?thesis .
qed

lemma month_text_cases:
  assumes "month_text ms"
  obtains a where "ms = [a]" "49 \<le> a" "a \<le> 57"
  | b where "ms = [48, b]" "49 \<le> b" "b \<le> 57"
  | b where "ms = [49, b]" "48 \<le> b" "b \<le> 50"
proof -
  from assms have "length ms = 1 \<or> length ms = 2" by (simp add: month_text_def)
  then consider a where "ms = [a]" | a b where "ms = [a, b]"
    unfolding one_or_two by blast
  then show thesis
  proof cases
    case 1
    with assms that(1) show thesis by (simp add: month_text_one)
  next
    case 2
    with assms that(2,3) show thesis by (auto simp: month_text_two)
  qed
qed

lemma day_text_cases:
  assumes "day_text zeros ds"
  obtains b where "ds = [51, b]" "48 \<le> b" "b \<le> 49"
  | a b where "ds = [a, b]" "49 \<le> a" "a \<le> 50" "is_decimal zeros b"
  | b where "ds = [48, b]" "49 \<le> b" "b \<le> 57"
  | a where "ds = [a]" "49 \<le> a" "a \<le> 57"
  | b where "ds = [32, b]" "49 \<le> b" "b \<le> 57"
proof -
  from assms have "length ds = 1 \<or> length ds = 2"
    by (auto simp: day_text_def)
  then consider a where "ds = [a]" | a b where "ds = [a, b]"
    unfolding one_or_two by blast
  then show thesis
  proof cases
    case 1
    with assms that(4) show thesis by (simp add: day_text_one)
  next
    case 2
    with assms that(1,2,3,5) show thesis by (auto simp: day_text_two)
  qed
qed

lemma re_m_mem:
  assumes "(m, r) \<in> set (re_m s)"
  shows "s = m @ r \<and> month_text m"
proof -
  from assms consider
    "(m, r) \<in> set (two_chars (is_char CHR ''1'') (in_range CHR ''0'' CHR ''2'') s)"
    | "(m, r) \<in> set (two_chars (is_char CHR ''0'') (in_range CHR ''1'' CHR ''9'') s)"
    | "(m, r) \<in> set (one_char (in_range CHR ''1'' CHR ''9'') s)"
    by (auto simp: re_m_def)
  then show ?thesis
  proof cases
    case 1
    then obtain a b where "m = [a, b]" "is_char CHR ''1'' a" "in_range CHR ''0'' CHR ''2'' b"
      "s = a # b # r"
      using two_chars_mem by blast
    then show ?thesis by (simp add: month_text_two classes)
  next
    case 2
    then obtain a b where "m = [a, b]" "is_char CHR ''0'' a" "in_range CHR ''1'' CHR ''9'' b"
      "s = a # b # r"
      using two_chars_mem by blast
    then show ?thesis by (simp add: month_text_two classes)
  next
    case 3
    then obtain a where "m = [a]" "in_range CHR ''1'' CHR ''9'' a" "s = a # r"
      using one_char_mem by blast
    then show ?thesis by (simp add: month_text_one classes)
  qed
qed

lemma re_d_mem:
  assumes "(d, r) \<in> set (re_d zeros s)"
  shows "s = d @ r \<and> day_text zeros d"
proof -
  from assms consider
    "(d, r) \<in> set (two_chars (is_char CHR ''3'') (in_range CHR ''0'' CHR ''1'') s)"
    | "(d, r) \<in> set (two_chars (in_range CHR ''1'' CHR ''2'') (is_decimal zeros) s)"
    | "(d, r) \<in> set (two_chars (is_char CHR ''0'') (in_range CHR ''1'' CHR ''9'') s)"
    | "(d, r) \<in> set (one_char (in_range CHR ''1'' CHR ''9'') s)"
    | "(d, r) \<in> set (two_chars (is_char CHR '' '') (in_range CHR ''1'' CHR ''9'') s)"
    by (auto simp: re_d_def)
  then show ?thesis
  proof cases
    case 1
    then obtain a b where "d = [a, b]" "is_char CHR ''3'' a" "in_range CHR ''0'' CHR ''1'' b"
      "s = a # b # r"
      using two_chars_mem by blast
    then show ?thesis by (simp add: day_text_two classes)
  next
    case 2
    then obtain a b where "d = [a, b]" "in_range CHR ''1'' CHR ''2'' a" "is_decimal zeros b"
      "s = a # b # r"
      using two_chars_mem by blast
    then show ?thesis by (simp add: day_text_two classes)
  next
    case 3
    then obtain a b where "d = [a, b]" "is_char CHR ''0'' a" "in_range CHR ''1'' CHR ''9'' b"
      "s = a # b # r"
      using two_chars_mem by blast
    then show ?thesis by (simp add: day_text_two classes)
  next
    case 4
    then obtain a where "d = [a]" "in_range CHR ''1'' CHR ''9'' a" "s = a # r"
      using one_char_mem by blast
    then show ?thesis by (simp add: day_text_one classes)
  next
    case 5
    then obtain a b where "d = [a, b]" "is_char CHR '' '' a" "in_range CHR ''1'' CHR ''9'' b"
      "s = a # b # r"
      using two_chars_mem by blast
    then show ?thesis by (simp add: day_text_two classes)
  qed
qed

lemma re_m_month:
  assumes "month_text ms"
  shows "concat (map (\<lambda>(m, r3). concat (map (\<lambda>(x, r4). G m r4) (re_dash r3)))
                  (re_m (ms @ 45 # r))) = G ms r"
  using assms
proof (cases rule: month_text_cases)
  case (1 a)
  then show ?thesis
    by (simp add: re_m_def re_dash_def classes)
next
  case (2 b)
  then show ?thesis
    by (simp add: re_m_def re_dash_def classes)
next
  case (3 b)
  then show ?thesis
    by (simp add: re_m_def re_dash_def classes)
qed

lemma re_d_day:
  assumes "day_text zeros ds"
  shows "\<exists>tl. re_d zeros ds = (ds, []) # tl"
  using assms
proof (cases rule: day_text_cases)
  case (1 b)
  then show ?thesis by (simp add: re_d_def classes)
next
  case (2 a b)
  then show ?thesis by (simp add: re_d_def classes)
next
  case (3 b)
  then show ?thesis by (simp add: re_d_def classes)
next
  case (4 a)
  then show ?thesis by (simp add: re_d_def classes)
next
  case (5 b)
  then show ?thesis by (simp add: re_d_def classes)
qed

lemma format_regex_match_accepts:
  assumes "length ys = 4" "list_all (is_decimal zeros) ys" "month_text ms" "day_text zeros ds"
  shows "\<exists>tl. format_regex_match zeros (ys @ [45] @ ms @ [45] @ ds) = ((ys, ms, ds), []) # tl"
proof -
  from re_d_day [OF assms(4)] obtain tl where d: "re_d zeros ds = (ds, []) # tl" by blast
  have "format_regex_match zeros (ys @ [45] @ ms @ [45] @ ds)
          = concat (map (\<lambda>(m, r3). concat (map (\<lambda>(x, r4).
                map (\<lambda>(d, r5). ((ys, m, d), r5)) (re_d zeros r4)) (re_dash r3)))
              (re_m (ms @ 45 # ds)))"
    by (simp add: format_regex_match_def re_Y_append [OF assms(1,2)] re_dash_cons)
  also have "\<dots> = map (\<lambda>(d, r5). ((ys, ms, d), r5)) (re_d zeros ds)"
    by (rule re_m_month [OF assms(3)])
  finally show ?thesis by (simp add: d)
qed

lemma format_regex_match_mem:
  assumes "((y, m, d), r) \<in> set (format_regex_match zeros s)"
  shows "s = y @ [45] @ m @ [45] @ d @ r \<and> length y = 4 \<and> list_all (is_decimal zeros) y
           \<and> month_text m \<and> day_text zeros d"
proof -
  from assms obtain r1 x1 r2 r3 x2 r4 where
    "(y, r1) \<in> set (re_Y zeros s)" "(x1, r2) \<in> set (re_dash r1)" "(m, r3) \<in> set (re_m r2)"
    "(x2, r4) \<in> set (re_dash r3)" "(d, r) \<in> set (re_d zeros r4)"
    by (auto simp: format_regex_match_def)
  then show ?thesis
    using re_Y_mem [of y r1 zeros s] re_dash_mem [of x1 r2 r1] re_m_mem [of m r3 r2]
      re_dash_mem [of x2 r4 r3] re_d_mem [of d r zeros r4]
    by simp
qed

lemma month_text_value:
  assumes "month_text ms"
  shows "1 \<le> py_int zeros ms \<and> py_int zeros ms \<le> 12"
proof -
  have "py_int zeros ms = py_int [] ms"
    using assms
  proof (cases rule: month_text_cases)
    case (1 a)
    then show ?thesis by (simp add: py_int_ascii_one)
  next
    case (2 b)
    then show ?thesis by (simp add: py_int_ascii_two)
  next
    case (3 b)
    then show ?thesis by (simp add: py_int_ascii_two)
  qed
  with assms show ?thesis by (simp add: month_text_def)
qed

lemma day_text_positive:
  assumes "list_all (\<lambda>z. 128 \<le> z) zeros" and "day_text zeros ds"
  shows "1 \<le> py_int zeros ds"
  using assms(2)
proof (cases rule: day_text_cases)
  case (1 b)
  then show ?thesis by (simp add: py_int_ascii_two)
next
  case (2 a b)
  from 2(4) have "48 \<le> b" using is_decimal_above [OF assms(1)] by blast
  then have "b \<noteq> 32" by simp
  moreover from 2(2) have "a \<noteq> 32" by simp
  ultimately have "py_int zeros ds = 10 * digit_value zeros a + digit_value zeros b"
    unfolding 2(1) by (simp add: py_int_two)
  moreover from 2(2,3) have "digit_value zeros a = a - 48" by (simp add: digit_value_ascii)
  ultimately show ?thesis using 2(2) digit_value_bounds [of zeros b] by simp
next
  case (3 b)
  then show ?thesis by (simp add: py_int_ascii_two)
next
  case (4 a)
  then show ?thesis by (simp add: py_int_ascii_one)
next
  case (5 b)
  then show ?thesis by (simp add: py_int_blank py_int_ascii_one)
qed

lemma strptime_accepts:
  assumes "list_all (\<lambda>z. 128 \<le> z) zeros" and "accepted_date zeros s"
  shows "\<exists>t. strptime zeros s = Inr t"
proof -
  from assms(2) obtain ys ms ds where s: "s = ys @ [45] @ ms @ [45] @ ds"
    and y: "length ys = 4" "list_all (is_decimal zeros) ys" "1 \<le> py_int zeros ys"
    and m: "month_text ms" and d: "day_text zeros ds"
    and c: "py_int zeros ds \<le> days_in_month (py_int zeros ys) (py_int zeros ms)"
    unfolding accepted_date_def code_points_dash by blast
  from format_regex_match_accepts [OF y(1,2) m d] obtain tl where
    f: "format_regex_match zeros s = ((ys, ms, ds), []) # tl" unfolding s by blast
  from year_range [OF assms(1) y(1,2)] have y9: "py_int zeros ys \<le> 9999" by simp
  from m have mr: "1 \<le> py_int zeros ms" "py_int zeros ms \<le> 12"
    using month_text_value by simp_all
  from assms(1) d have dr: "1 \<le> py_int zeros ds" by (rule day_text_positive)
  from f y(3) y9 mr dr c show ?thesis
    by (simp add: strptime_def midnight_def)
qed

lemma strptime_accepted:
  assumes "strptime zeros s = Inr t"
  shows "accepted_date zeros s"
proof -
  from assms obtain y m d tl where f: "format_regex_match zeros s = ((y, m, d), []) # tl"
    and v: "midnight (py_int zeros y) (py_int zeros m) (py_int zeros d) = Inr t"
    by (auto simp: strptime_def split: list.splits if_splits)
  from f have "((y, m, d), []) \<in> set (format_regex_match zeros s)" by simp
  from format_regex_match_mem [OF this]
  have s: "s = y @ [45] @ m @ [45] @ d" and p: "length y = 4" "list_all (is_decimal zeros) y"
    "month_text m" "day_text zeros d" by simp_all
  from v have "1 \<le> py_int zeros y"
    "py_int zeros d \<le> days_in_month (py_int zeros y) (py_int zeros m)"
    by (auto simp: midnight_def split: if_splits)
  with s p show ?thesis unfolding accepted_date_def code_points_dash by blast
qed

lemma strptime_error: "strptime zeros s = Inl e \<Longrightarrow> e = ValueError"
  by (auto simp: strptime_def midnight_def split: list.splits if_splits)

text \<open>
  \<^verbatim>\<open>validate_date\<close> accepts a text exactly when it is an accepted date, and fails with the
  error of its caller otherwise.
\<close>

lemma validate_date_iff:
  assumes "list_all (\<lambda>z. 128 \<le> z) zeros"
  shows "validate_date zeros s err = (if accepted_date zeros s then Inr () else Inl err)"
proof (cases "strptime zeros s")
  case (Inl e)
  then have "e = ValueError" by (rule strptime_error)
  moreover from Inl have "\<not> accepted_date zeros s"
    using strptime_accepts [OF assms] by fastforce
  ultimately show ?thesis using Inl by (simp add: validate_date_def)
next
  case (Inr t)
  then have "accepted_date zeros s" by (rule strptime_accepted)
  with Inr show ?thesis by (simp add: validate_date_def)
qed

text \<open>
  C8, as amended.  The runs of decimal digits other than that of ASCII lie beyond ASCII.
  The view looks at a \<^verbatim>\<open>from\<close> or \<^verbatim>\<open>to\<close> parameter only when it is present and not empty.
  Such a text passes exactly when \<^verbatim>\<open>strptime\<close> parses it with \<^verbatim>\<open>%Y-%m-%d\<close>: a year of
  four decimal digits of Unicode other than the year 0, a dash, a month from 1 to 12 in
  one or two digits of ASCII, a dash, and a day of that month (in one or two digits of
  ASCII, as 1 or 2 of ASCII with any decimal digit, or as a blank and one digit).  Every
  other text fails with the \<^verbatim>\<open>ValidationError\<close> of its parameter, \<^verbatim>\<open>from\<close> first, and
  \<^verbatim>\<open>get_queryset\<close> fails with the error of the checks before any statement is sent.
\<close>

theorem date_checks_accept_strptime_dates:
  assumes "list_all (\<lambda>z. 128 \<le> z) zeros"
  shows "check_dates zeros req =
           (if truthy (to_param req) \<and> \<not> truthy (from_param req)
            then Inl (ValidationError ''from'' ''Must be provide along with to query'')
            else if truthy (from_param req) \<and> \<not> accepted_date zeros (text_of (from_param req))
            then Inl (ValidationError ''from'' ''Must be a date in the format Y-m-d.'')
            else if truthy (to_param req) \<and> \<not> accepted_date zeros (text_of (to_param req))
            then Inl (ValidationError ''to'' ''Must be a date in the format Y-m-d.'')
            else Inr ())
       \<and> (\<forall>e. check_dates zeros req = Inl e \<longrightarrow>
              get_queryset zeros eng now d req = (Inl e, d))"
proof
  show "check_dates zeros req =
           (if truthy (to_param req) \<and> \<not> truthy (from_param req)
            then Inl (ValidationError ''from'' ''Must be provide along with to query'')
            else if truthy (from_param req) \<and> \<not> accepted_date zeros (text_of (from_param req))
            then Inl (ValidationError ''from'' ''Must be a date in the format Y-m-d.'')
            else if truthy (to_param req) \<and> \<not> accepted_date zeros (text_of (to_param req))
            then Inl (ValidationError ''to'' ''Must be a date in the format Y-m-d.'')
            else Inr ())"
    unfolding check_dates_def validate_date_iff [OF assms] by simp
  show "\<forall>e. check_dates zeros req = Inl e \<longrightarrow> get_queryset zeros eng now d req = (Inl e, d)"
    by (simp add: get_queryset_def)
qed

theorem date_checks_accept_strptime_dates_witness:
  "list_all (\<lambda>z. 128 \<le> z) example_zeros
   \<and> accepted_date example_zeros (code_points ''2023-1-5'')
   \<and> accepted_date example_zeros [65298, 65296, 65298, 65299, 45, 48, 49, 45, 50, 1637]
   \<and> \<not> accepted_date example_zeros (code_points ''2023-02-29'')
   \<and> \<not> accepted_date example_zeros (code_points ''20230103'')
   \<and> get_queryset example_zeros example_engine jan_4 example_db
        (example_request\<lparr>from_param := Some (code_points ''2023-02-29''), to_param := None\<rparr>)
       = (Inl (ValidationError ''from'' ''Must be a date in the format Y-m-d.''), example_db)
   \<and> get_queryset example_zeros example_engine jan_4 example_db
        (example_request\<lparr>to_param := Some (code_points ''20230103'')\<rparr>)
       = (Inl (ValidationError ''to'' ''Must be a date in the format Y-m-d.''), example_db)"
proof -
  let ?r1 = "example_request\<lparr>from_param := Some (code_points ''2023-1-5''), to_param := None\<rparr>"
  let ?r2 = "example_request\<lparr>from_param :=
               Some [65298, 65296, 65298, 65299, 45, 48, 49, 45, 50, 1637], to_param := None\<rparr>"
  let ?r3 = "example_request\<lparr>from_param := Some (code_points ''2023-02-29''), to_param := None\<rparr>"
  let ?r4 = "example_request\<lparr>to_param := Some (code_points ''20230103'')\<rparr>"
  have z: "list_all (\<lambda>z. 128 \<le> z) example_zeros"
    by (simp add: example_zeros_def)
  have c: "check_dates example_zeros ?r1 = Inr ()"
    "check_dates example_zeros ?r2 = Inr ()"
    "check_dates example_zeros ?r3
       = Inl (ValidationError ''from'' ''Must be a date in the format Y-m-d.'')"
    "check_dates example_zeros ?r4
       = Inl (ValidationError ''to'' ''Must be a date in the format Y-m-d.'')"
    by code_simp+
  have t: "truthy (from_param ?r1)" "\<not> truthy (to_param ?r1)"
    "truthy (from_param ?r2)" "\<not> truthy (to_param ?r2)"
    "truthy (from_param ?r3)" "\<not> truthy (to_param ?r3)"
    "truthy (from_param ?r4)" "truthy (to_param ?r4)"
    by (simp_all add: truthy_def example_request_def code_points_def)
  have x: "text_of (from_param ?r1) = code_points ''2023-1-5''"
    "text_of (from_param ?r2) = [65298, 65296, 65298, 65299, 45, 48, 49, 45, 50, 1637]"
    "text_of (from_param ?r3) = code_points ''2023-02-29''"
    "text_of (to_param ?r4) = code_points ''20230103''"
    by (simp_all add: text_of_def)
  from date_checks_accept_strptime_dates [OF z, of ?r1 example_engine jan_4 example_db]
  have 1: "accepted_date example_zeros (code_points ''2023-1-5'')"
    unfolding c x using t(1,2) by (simp split: if_splits)
  from date_checks_accept_strptime_dates [OF z, of ?r2 example_engine jan_4 example_db]
  have 2: "accepted_date example_zeros [65298, 65296, 65298, 65299, 45, 48, 49, 45, 50, 1637]"
    unfolding c x using t(3,4) by (simp split: if_splits)
  from date_checks_accept_strptime_dates [OF z, of ?r3 example_engine jan_4 example_db]
  have 3: "\<not> accepted_date example_zeros (code_points ''2023-02-29'')"
    and 5: "get_queryset example_zeros example_engine jan_4 example_db ?r3
       = (Inl (ValidationError ''from'' ''Must be a date in the format Y-m-d.''), example_db)"
    unfolding c x using t(5,6) by (simp_all split: if_splits)
  from date_checks_accept_strptime_dates [OF z, of ?r4 example_engine jan_4 example_db]
  have 4: "\<not> accepted_date example_zeros (code_points ''20230103'')"
    and 6: "get_queryset example_zeros example_engine jan_4 example_db ?r4
       = (Inl (ValidationError ''to'' ''Must be a date in the format Y-m-d.''), example_db)"
    unfolding c x using t(7,8) by (simp_all split: if_splits)
  from z 1 2 3 4 5 6 show ?thesis by simp
qed

text \<open>
  The exact format of the specification fails in both directions.  \<^verbatim>\<open>2023-1-5\<close> is not
  padded to two digits, and a year in fullwidth digits is not in the digits of ASCII: both
  are accepted, by \<^verbatim>\<open>strptime\<close> and by the checks of the view.  The empty text, supplied
  as \<^verbatim>\<open>from=\<close>, is not in the format and does not fail: the view does not look at it and
  sends the statement of the last 24 hours.
\<close>

theorem exact_date_format_counterexample:
  "\<not> is_yyyy_mm_dd (code_points ''2023-1-5'')
   \<and> check_dates example_zeros
        (example_request\<lparr>from_param := Some (code_points ''2023-1-5''), to_param := None\<rparr>)
       = Inr ()
   \<and> strptime example_zeros (code_points ''2023-1-5'') = midnight 2023 1 5
   \<and> \<not> is_yyyy_mm_dd [65298, 65296, 65298, 65299, 45, 48, 49, 45, 48, 53]
   \<and> check_dates example_zeros
        (example_request\<lparr>from_param := Some [65298, 65296, 65298, 65299, 45, 48, 49, 45, 48, 53],
                         to_param := None\<rparr>)
       = Inr ()
   \<and> strptime example_zeros [65298, 65296, 65298, 65299, 45, 48, 49, 45, 48, 53]
       = midnight 2023 1 5
   \<and> \<not> is_yyyy_mm_dd []
   \<and> check_dates example_zeros (example_request\<lparr>from_param := Some [], to_param := None\<rparr>)
       = Inr ()
   \<and> executed (snd (get_queryset example_zeros example_engine jan_4 example_db
                      (example_request\<lparr>from_param := Some [], to_param := None\<rparr>))) = 1"
  by code_simp

section \<open>Properties of the result shaper\<close>

lemma include_fresh:
  "include_result flag (if flag then Seq [] else Obj None) (summary_of r) = Inr (shaped flag [r])"
  by (simp add: include_result_def shaped_def)

lemma include_more:
  "m \<noteq> [] \<Longrightarrow> include_result flag (shaped flag m) (summary_of r) = Inr (shaped flag (m @ [r]))"
  by (simp add: include_result_def shaped_def)

lemma matching_snoc:
  "matching c v (rows @ [r]) =
     matching c v rows @ (if city_name r = c \<and> value_type r = v then [r] else [])"
  by (simp add: matching_def)

lemma matching_none: "list_all (\<lambda>r. city_name r \<noteq> c) rows \<Longrightarrow> matching c v rows = []"
  by (auto simp: matching_def list_all_iff filter_empty_conv)

lemma shaped_so_far_None:
  "shaped_so_far flag res rows \<Longrightarrow> map_of res c = None \<Longrightarrow> list_all (\<lambda>r. city_name r \<noteq> c) rows"
  unfolding shaped_so_far_def by (erule allE [of _ c]) simp

lemma shaped_so_far_Some:
  "shaped_so_far flag res rows \<Longrightarrow> map_of res c = Some cd \<Longrightarrow>
     map_of cd ''city_name'' = Some (Text c)
     \<and> (\<forall>vt. vt = ''city_name''
            \<or> map_of cd vt = (if matching c vt rows = [] then None
                              else Some (shaped flag (matching c vt rows))))"
  unfolding shaped_so_far_def by (erule allE [of _ c]) simp

lemma shaped_so_far_empty: "shaped_so_far flag [] []"
  by (simp add: shaped_so_far_def)

lemma shape_row_new_city:
  assumes "map_of res (city_name r) = None" and "value_type r \<noteq> ''city_name''"
  shows "\<exists>res' cd'. shape_row flag res r = Inr res'
           \<and> map_of res' = (map_of res)(city_name r \<mapsto> cd')
           \<and> map_of cd' = [''city_name'' \<mapsto> Text (city_name r), value_type r \<mapsto> shaped flag [r]]"
proof -
  define fresh where "fresh = (if flag then Seq [] else Obj None)"
  let ?cd0 = "[(''city_name'', Text (city_name r)), (value_type r, fresh)]"
  let ?cd' = "AList.update (value_type r) (shaped flag [r]) ?cd0"
  let ?res1 = "AList.update (city_name r) ?cd0 res"
  let ?res' = "AList.update (city_name r) ?cd' ?res1"
  have i: "include_result flag fresh (summary_of r) = Inr (shaped flag [r])"
    unfolding fresh_def by (rule include_fresh)
  have u: "AList.update (value_type r) fresh [(''city_name'', Text (city_name r))] = ?cd0"
    using assms(2) by auto
  have m1: "map_of ?res1 (city_name r) = Some ?cd0"
    by (simp add: update_conv')
  have v: "map_of ?cd0 (value_type r) = Some fresh"
    using assms(2) by simp
  have "shape_row flag res r = Inr ?res'"
    unfolding shape_row_def Let_def fresh_def [symmetric]
    using assms(2) by (simp add: assms(1) m1 v i)
  moreover have "map_of ?res' = (map_of res)(city_name r \<mapsto> ?cd')"
    by (simp add: update_conv')
  moreover have "map_of ?cd' =
      [''city_name'' \<mapsto> Text (city_name r), value_type r \<mapsto> shaped flag [r]]"
    using assms(2) by (auto simp: fun_eq_iff)
  ultimately show ?thesis by blast
qed

lemma shape_row_new_type:
  assumes "map_of res (city_name r) = Some cd" and "map_of cd (value_type r) = None"
  shows "\<exists>res' cd'. shape_row flag res r = Inr res'
           \<and> map_of res' = (map_of res)(city_name r \<mapsto> cd')
           \<and> map_of cd' = (map_of cd)(value_type r \<mapsto> shaped flag [r])"
proof -
  define fresh where "fresh = (if flag then Seq [] else Obj None)"
  let ?cd1 = "AList.update (value_type r) fresh cd"
  let ?cd' = "AList.update (value_type r) (shaped flag [r]) ?cd1"
  let ?res' = "AList.update (city_name r) ?cd' res"
  have i: "include_result flag fresh (summary_of r) = Inr (shaped flag [r])"
    unfolding fresh_def by (rule include_fresh)
  have v: "map_of ?cd1 (value_type r) = Some fresh"
    by (simp add: update_conv')
  have "shape_row flag res r = Inr ?res'"
    unfolding shape_row_def Let_def fresh_def [symmetric]
    by (simp add: assms v i)
  moreover have "map_of ?res' = (map_of res)(city_name r \<mapsto> ?cd')"
    by (simp add: update_conv')
  moreover have "map_of ?cd' = (map_of cd)(value_type r \<mapsto> shaped flag [r])"
    by (simp add: update_conv')
  ultimately show ?thesis by blast
qed

lemma shape_row_old_type:
  assumes "map_of res (city_name r) = Some cd"
    and "map_of cd (value_type r) = Some (shaped flag m)" and "m \<noteq> []"
  shows "\<exists>res' cd'. shape_row flag res r = Inr res'
           \<and> map_of res' = (map_of res)(city_name r \<mapsto> cd')
           \<and> map_of cd' = (map_of cd)(value_type r \<mapsto> shaped flag (m @ [r]))"
proof -
  define fresh where "fresh = (if flag then Seq [] else Obj None)"
  let ?cd' = "AList.update (value_type r) (shaped flag (m @ [r])) cd"
  let ?res' = "AList.update (city_name r) ?cd' res"
  have "shape_row flag res r = Inr ?res'"
    unfolding shape_row_def Let_def fresh_def [symmetric]
    by (simp add: assms(1,2) include_more [OF assms(3)])
  moreover have "map_of ?res' = (map_of res)(city_name r \<mapsto> ?cd')"
    by (simp add: update_conv')
  moreover have "map_of ?cd' = (map_of cd)(value_type r \<mapsto> shaped flag (m @ [r]))"
    by (simp add: update_conv')
  ultimately show ?thesis by blast
qed

lemma shaped_so_far_step:
  assumes r: "shape_row flag res r = Inr res'"
    and m: "map_of res' = (map_of res)(city_name r \<mapsto> cd')"
    and inv: "shaped_so_far flag res rows"
    and cn: "map_of cd' ''city_name'' = Some (Text (city_name r))"
    and vt: "\<And>vt. vt \<noteq> ''city_name'' \<Longrightarrow>
               map_of cd' vt = (if matching (city_name r) vt (rows @ [r]) = [] then None
                                else Some (shaped flag (matching (city_name r) vt (rows @ [r]))))"
  shows "shaped_so_far flag res' (rows @ [r])"
  unfolding shaped_so_far_def
proof
  fix city
  show "case map_of res' city of
          None \<Rightarrow> list_all (\<lambda>r. city_name r \<noteq> city) (rows @ [r])
        | Some cd \<Rightarrow>
            map_of cd ''city_name'' = Some (Text city)
            \<and> (\<forall>vt. vt = ''city_name''
                   \<or> map_of cd vt = (if matching city vt (rows @ [r]) = [] then None
                                     else Some (shaped flag (matching city vt (rows @ [r])))))"
  proof (cases "city = city_name r")
    case True
    then have c: "map_of res' city = Some cd'" by (simp add: m)
    have "\<forall>vt. vt = ''city_name''
            \<or> map_of cd' vt = (if matching (city_name r) vt (rows @ [r]) = [] then None
                               else Some (shaped flag (matching (city_name r) vt (rows @ [r]))))"
      using vt by blast
    with True cn c show ?thesis by (auto split: if_splits)
  next
    case False
    then have e: "map_of res' city = map_of res city" by (simp add: m)
    from False have s: "\<And>vt. matching city vt (rows @ [r]) = matching city vt rows"
      by (auto simp: matching_snoc)
    show ?thesis
    proof (cases "map_of res city")
      case None
      with inv have "list_all (\<lambda>r. city_name r \<noteq> city) rows" by (rule shaped_so_far_None)
      with None e False show ?thesis by simp
    next
      case (Some cd)
      with inv have "map_of cd ''city_name'' = Some (Text city)
         \<and> (\<forall>vt. vt = ''city_name''
            \<or> map_of cd vt = (if matching city vt rows = [] then None
                              else Some (shaped flag (matching city vt rows))))"
        by (rule shaped_so_far_Some)
      with Some e show ?thesis by (auto simp: s split: if_splits)
    qed
  qed
qed

lemma shape_row_step:
  assumes inv: "shaped_so_far flag res rows" and nt: "value_type r \<noteq> ''city_name''"
  shows "\<exists>res'. shape_row flag res r = Inr res' \<and> shaped_so_far flag res' (rows @ [r])"
proof (cases "map_of res (city_name r)")
  case None
  with inv have "list_all (\<lambda>x. city_name x \<noteq> city_name r) rows" by (rule shaped_so_far_None)
  then have e: "\<And>vt. matching (city_name r) vt rows = []" by (rule matching_none)
  from shape_row_new_city [OF None nt, of flag] obtain res' cd' where
    r: "shape_row flag res r = Inr res'"
    and m: "map_of res' = (map_of res)(city_name r \<mapsto> cd')"
    and c: "map_of cd' = [''city_name'' \<mapsto> Text (city_name r), value_type r \<mapsto> shaped flag [r]]"
    by blast
  have "shaped_so_far flag res' (rows @ [r])"
    using r m inv
  proof (rule shaped_so_far_step)
    show "map_of cd' ''city_name'' = Some (Text (city_name r))"
      using nt by (simp add: c)
  next
    fix vt :: string
    assume "vt \<noteq> ''city_name''"
    then show "map_of cd' vt = (if matching (city_name r) vt (rows @ [r]) = [] then None
                  else Some (shaped flag (matching (city_name r) vt (rows @ [r]))))"
      by (simp add: c matching_snoc e)
  qed
  with r show ?thesis by blast
next
  case (Some cd)
  with inv have cd: "map_of cd ''city_name'' = Some (Text (city_name r))"
    and old: "\<And>vt. vt \<noteq> ''city_name'' \<Longrightarrow>
               map_of cd vt = (if matching (city_name r) vt rows = [] then None
                               else Some (shaped flag (matching (city_name r) vt rows)))"
    using shaped_so_far_Some by blast+
  show ?thesis
  proof (cases "matching (city_name r) (value_type r) rows = []")
    case True
    with old [OF nt] have n: "map_of cd (value_type r) = None" by simp
    from shape_row_new_type [OF Some n, of flag] obtain res' cd' where
      r: "shape_row flag res r = Inr res'"
      and m: "map_of res' = (map_of res)(city_name r \<mapsto> cd')"
      and c: "map_of cd' = (map_of cd)(value_type r \<mapsto> shaped flag [r])"
      by blast
    have "shaped_so_far flag res' (rows @ [r])"
      using r m inv
    proof (rule shaped_so_far_step)
      show "map_of cd' ''city_name'' = Some (Text (city_name r))"
        using nt cd by (simp add: c)
    next
      fix vt :: string
      assume "vt \<noteq> ''city_name''"
      then show "map_of cd' vt = (if matching (city_name r) vt (rows @ [r]) = [] then None
                    else Some (shaped flag (matching (city_name r) vt (rows @ [r]))))"
        using True by (simp add: c matching_snoc old)
    qed
    with r show ?thesis by blast
  next
    case False
    with old [OF nt]
    have n: "map_of cd (value_type r) = Some (shaped flag (matching (city_name r) (value_type r) rows))"
      by simp
    from shape_row_old_type [OF Some n False] obtain res' cd' where
      r: "shape_row flag res r = Inr res'"
      and m: "map_of res' = (map_of res)(city_name r \<mapsto> cd')"
      and c: "map_of cd' = (map_of cd)(value_type r \<mapsto>
                 shaped flag (matching (city_name r) (value_type r) rows @ [r]))"
      by blast
    have "shaped_so_far flag res' (rows @ [r])"
      using r m inv
    proof (rule shaped_so_far_step)
      show "map_of cd' ''city_name'' = Some (Text (city_name r))"
        using nt cd by (simp add: c)
    next
      fix vt :: string
      assume "vt \<noteq> ''city_name''"
      then show "map_of cd' vt = (if matching (city_name r) vt (rows @ [r]) = [] then None
                    else Some (shaped flag (matching (city_name r) vt (rows @ [r]))))"
        by (simp add: c matching_snoc old)
    qed
    with r show ?thesis by blast
  qed
qed

lemma shape_rows_invariant:
  assumes "shaped_so_far flag res done_rows"
    and "list_all (\<lambda>r. value_type r \<noteq> ''city_name'') rest"
  shows "\<exists>res'. shape_rows flag res rest = Inr res' \<and> shaped_so_far flag res' (done_rows @ rest)"
  using assms
proof (induction rest arbitrary: res done_rows)
  case Nil
  then show ?case by simp
next
  case (Cons r rest)
  from Cons.prems(2) have nt: "value_type r \<noteq> ''city_name''"
    and rest: "list_all (\<lambda>r. value_type r \<noteq> ''city_name'') rest" by simp_all
  from shape_row_step [OF Cons.prems(1) nt] obtain res1 where
    s: "shape_row flag res r = Inr res1" and i: "shaped_so_far flag res1 (done_rows @ [r])"
    by blast
  from Cons.IH [OF i rest] obtain res' where
    "shape_rows flag res1 rest = Inr res'" "shaped_so_far flag res' ((done_rows @ [r]) @ rest)"
    by blast
  with s show ?case by simp
qed

lemma shape_rows_lookup:
  assumes "list_all (\<lambda>r. value_type r \<noteq> ''city_name'') rows" and "vt \<noteq> ''city_name''"
  shows "\<exists>res. shape_rows flag [] rows = Inr res
           \<and> lookup res city vt = (if matching city vt rows = [] then None
                                    else Some (shaped flag (matching city vt rows)))"
proof -
  from shape_rows_invariant [OF shaped_so_far_empty assms(1), of flag] obtain res where
    r: "shape_rows flag [] rows = Inr res" and i: "shaped_so_far flag res rows" by auto
  have "lookup res city vt = (if matching city vt rows = [] then None
                                    else Some (shaped flag (matching city vt rows)))"
  proof (cases "map_of res city")
    case None
    with i have "list_all (\<lambda>r. city_name r \<noteq> city) rows" by (rule shaped_so_far_None)
    then have "matching city vt rows = []" by (rule matching_none)
    with None show ?thesis by (simp add: lookup_def)
  next
    case (Some cd)
    with i assms(2) have "map_of cd vt = (if matching city vt rows = [] then None
                              else Some (shaped flag (matching city vt rows)))"
      using shaped_so_far_Some by blast
    with Some show ?thesis by (simp add: lookup_def)
  qed
  with r show ?thesis by blast
qed

text \<open>
  C5.  For rows whose value type is not the reserved key \<^verbatim>\<open>"city_name"\<close> (value types come
  from the filter of the query, which never holds it), the shaper succeeds, and under a
  city and a value type carried by at least one row it holds: when the request has a
  \<^verbatim>\<open>from\<close> date, the sequence of the summaries of the rows with that city and value type,
  in the order in which they came; otherwise one summary, that of the last such row.  The
  summary of a row is its average, minimum, maximum, start and end, and nothing else.
  With two such rows this is a sequence of two summaries, respectively the summary of the
  second.
\<close>

theorem shaper_sequence_or_last:
  assumes "list_all (\<lambda>r. value_type r \<noteq> ''city_name'') rows"
    and "filter (\<lambda>r. city_name r = city \<and> value_type r = vt) rows = m"
    and "m \<noteq> []"
  shows "\<exists>res. get_paginated_response req nxt prv rows =
                 Inr \<lparr> next_link = nxt, previous_link = prv,
                       count = length res, results = map snd res \<rparr>
              \<and> shape_rows (truthy (from_param req)) [] rows = Inr res
              \<and> lookup res city vt =
                  Some (if truthy (from_param req)
                        then Seq (map (\<lambda>r. \<lparr> average = average r, minimum = minimum r,
                                              maximum = maximum r,
                                              start_datetime = start_datetime r,
                                              end_datetime = end_datetime r \<rparr>) m)
                        else Obj (Some \<lparr> average = average (last m),
                                         minimum = minimum (last m),
                                         maximum = maximum (last m),
                                         start_datetime = start_datetime (last m),
                                         end_datetime = end_datetime (last m) \<rparr>))"
proof -
  from assms(3) have "hd m \<in> set m" by simp
  with assms(2) have "hd m \<in> set rows" "value_type (hd m) = vt" by auto
  with assms(1) have vt: "vt \<noteq> ''city_name''" by (auto simp: list_all_iff)
  from assms(2) have mm: "matching city vt rows = m" by (simp add: matching_def)
  from shape_rows_lookup [OF assms(1) vt, of "truthy (from_param req)" city]
  obtain res where r: "shape_rows (truthy (from_param req)) [] rows = Inr res"
    and l: "lookup res city vt = Some (shaped (truthy (from_param req)) m)"
    using assms(3) by (auto simp: mm)
  from r have g: "get_paginated_response req nxt prv rows =
                 Inr \<lparr> next_link = nxt, previous_link = prv,
                       count = length res, results = map snd res \<rparr>"
    by (simp add: get_paginated_response_def)
  have s: "summary_of = (\<lambda>r. \<lparr> average = average r, minimum = minimum r,
                                maximum = maximum r, start_datetime = start_datetime r,
                                end_datetime = end_datetime r \<rparr>)"
    by (rule ext) (simp add: summary_of_def)
  from l have "lookup res city vt =
                  Some (if truthy (from_param req)
                        then Seq (map (\<lambda>r. \<lparr> average = average r, minimum = minimum r,
                                              maximum = maximum r,
                                              start_datetime = start_datetime r,
                                              end_datetime = end_datetime r \<rparr>) m)
                        else Obj (Some \<lparr> average = average (last m),
                                         minimum = minimum (last m),
                                         maximum = maximum (last m),
                                         start_datetime = start_datetime (last m),
                                         end_datetime = end_datetime (last m) \<rparr>))"
    unfolding shaped_def s by simp
  with g r show ?thesis by blast
qed

theorem shaper_sequence_or_last_witness:
  "(\<exists>res. shape_rows (truthy (from_param example_request)) [] example_rows = Inr res
      \<and> lookup res ''Nairobi'' ''P1'' =
           Some (Seq [\<lparr> average = 10, minimum = 9, maximum = 11,
                        start_datetime = jan_4 - hours 48, end_datetime = jan_4 - hours 47 \<rparr>,
                      \<lparr> average = 40, minimum = 39, maximum = 41,
                        start_datetime = jan_4 - hours 24, end_datetime = jan_4 - hours 23 \<rparr>]))
   \<and> (\<exists>res. shape_rows (truthy (from_param (example_request\<lparr>from_param := None\<rparr>))) []
               example_rows = Inr res
      \<and> lookup res ''Nairobi'' ''P1'' =
           Some (Obj (Some \<lparr> average = 40, minimum = 39, maximum = 41,
                              start_datetime = jan_4 - hours 24,
                              end_datetime = jan_4 - hours 23 \<rparr>)))"
proof -
  let ?m = "[example_row ''Nairobi'' ''P1'' 10 (jan_4 - hours 48),
             example_row ''Nairobi'' ''P1'' 40 (jan_4 - hours 24)]"
  have a: "list_all (\<lambda>r. value_type r \<noteq> ''city_name'') example_rows"
    by (simp add: example_rows_def example_row_def)
  have b: "filter (\<lambda>r. city_name r = ''Nairobi'' \<and> value_type r = ''P1'') example_rows = ?m"
    by (simp add: example_rows_def example_row_def)
  have c: "?m \<noteq> []" by simp
  have t: "truthy (from_param example_request)"
    and f: "\<not> truthy (from_param (example_request\<lparr>from_param := None\<rparr>))"
    by (simp_all add: example_request_def truthy_def code_points_def)
  have h: "jan_4 - hours 48 + hours 1 = jan_4 - hours 47"
    "jan_4 - hours 24 + hours 1 = jan_4 - hours 23"
    by (simp_all add: hours_def)
  from shaper_sequence_or_last [OF a b c, of example_request None None] t
  have "\<exists>res. shape_rows (truthy (from_param example_request)) [] example_rows = Inr res
      \<and> lookup res ''Nairobi'' ''P1'' =
           Some (Seq [\<lparr> average = 10, minimum = 9, maximum = 11,
                        start_datetime = jan_4 - hours 48, end_datetime = jan_4 - hours 47 \<rparr>,
                      \<lparr> average = 40, minimum = 39, maximum = 41,
                        start_datetime = jan_4 - hours 24, end_datetime = jan_4 - hours 23 \<rparr>])"
    by (auto simp: example_row_def h)
  moreover
  from shaper_sequence_or_last [OF a b c, of "example_request\<lparr>from_param := None\<rparr>" None None] f
  have "\<exists>res. shape_rows (truthy (from_param (example_request\<lparr>from_param := None\<rparr>))) []
               example_rows = Inr res
      \<and> lookup res ''Nairobi'' ''P1'' =
           Some (Obj (Some \<lparr> average = 40, minimum = 39, maximum = 41,
                              start_datetime = jan_4 - hours 24,
                              end_datetime = jan_4 - hours 23 \<rparr>))"
    by (auto simp: example_row_def h)
  ultimately show ?thesis by simp
qed

text \<open>The rows the statistics query returns are rows the shaper accepts.\<close>

lemma filter_value_types_tags:
  assumes "filter_value_types req = Inr tags"
  shows "set tags \<subseteq> {''P1'', ''P2'', ''humidity'', ''temperature'', ''HUMIDITY'', ''TEMPERATURE''}"
proof -
  have u: "map upper [''P1'', ''P2'', ''humidity'', ''temperature'']
             = [''P1'', ''P2'', ''HUMIDITY'', ''TEMPERATURE'']"
    by code_simp
  from assms obtain allowed where a: "value_types (sensor_type req) = Some allowed"
    by (cases "value_types (sensor_type req)") (simp_all add: filter_value_types_def)
  then have al: "allowed = [''P1'', ''P2'', ''humidity'', ''temperature'']"
    by (simp add: value_types_def split: if_splits)
  show ?thesis
  proof (cases "truthy (value_type_param req)")
    case True
    with assms a have "tags = filter (\<lambda>x. x \<in> set (map upper allowed))
        (remdups (split CHR '','' (upper (text_of (value_type_param req)))))"
      by (simp add: filter_value_types_def)
    then have "set tags \<subseteq> set (map upper allowed)" by auto
    moreover have "set (map upper allowed)
        \<subseteq> {''P1'', ''P2'', ''humidity'', ''temperature'', ''HUMIDITY'', ''TEMPERATURE''}"
      unfolding al u by simp
    ultimately show ?thesis by (rule subset_trans)
  next
    case False
    with assms a have "tags = allowed" by (simp add: filter_value_types_def)
    then show ?thesis unfolding al by simp
  qed
qed

lemma get_queryset_rows_value_types:
  assumes "get_queryset zeros eng now d req = (Inr out, d')"
  shows "list_all (\<lambda>r. value_type r \<noteq> ''city_name'') out"
proof -
  from assms obtain tags cities s e unit where
    f: "filter_value_types req = Inr tags"
    and c: "cursor_execute eng d tags cities s e unit = (Inr out, d')"
    by (auto simp: get_queryset_def Let_def split: sum.splits prod.splits)
  have "value_type row \<noteq> ''city_name''" if "row \<in> set out" for row
  proof -
    from c that have "value_type row \<in> set tags" by (rule cursor_execute_value_types)
    with filter_value_types_tags [OF f] show ?thesis by auto
  qed
  then show ?thesis by (simp add: list_all_iff)
qed

section \<open>Properties of the fleet status view\<close>

lemma node_entry_no_sensors:
  "get_node (node_table f) (node_id (la_node la)) = Inl e \<Longrightarrow> node_entry eng slug f la = Inl e"
  by (simp add: node_entry_def)

lemma get_node_no_sensors:
  "(\<forall>n \<in> set table. node_id n = i \<longrightarrow> sensors n = []) \<Longrightarrow> get_node table i = Inl DoesNotExist"
proof -
  assume "\<forall>n \<in> set table. node_id n = i \<longrightarrow> sensors n = []"
  then have "filter (\<lambda>n. node_id n = i \<and> sensors n \<noteq> []) table = []"
    by (auto simp: filter_empty_conv)
  then show ?thesis by (simp add: get_node_def)
qed

lemma nodes_loop_fails:
  assumes "la \<in> set las" and "node_entry eng slug f la = Inl e"
  shows "\<exists>e'. nodes_loop eng slug f las acc = Inl e'"
  using assms
proof (induction las arbitrary: acc)
  case Nil
  then show ?case by simp
next
  case (Cons x las)
  show ?case
  proof (cases "node_entry eng slug f x")
    case (Inl e')
    then show ?thesis by simp
  next
    case (Inr st)
    with Cons.prems have "la \<in> set las" by auto
    from Cons.IH [OF this Cons.prems(2)] Inr show ?thesis by simp
  qed
qed

lemma nodes_list_fails_on_zero_sensor_node:
  assumes "la \<in> set (last_active_nodes f)"
    and "\<forall>n \<in> set (node_table f). node_id n = node_id (la_node la) \<longrightarrow> sensors n = []"
  shows "\<exists>e. nodes_list eng slug f = Inl e"
proof -
  from assms(2) have "get_node (node_table f) (node_id (la_node la)) = Inl DoesNotExist"
    by (rule get_node_no_sensors)
  then have "node_entry eng slug f la = Inl DoesNotExist" by (rule node_entry_no_sensors)
  with assms(1) show ?thesis unfolding nodes_list_def by (rule nodes_loop_fails)
qed

text \<open>
  C9.  The listing of \<open>example_fleet\<close>: the snapshot of node 1, which has no sensor, makes
  \<^verbatim>\<open>get\<close> raise \<^verbatim>\<open>DoesNotExist\<close>, and the whole listing fails with it; node 2, which the
  listing returns when the snapshot of node 1 is taken away, is not emitted.
\<close>

theorem zero_sensor_node_aborts_listing:
  "map (\<lambda>la. (node_id (la_node la), sensors (la_node la))) (last_active_nodes example_fleet)
     = [(1, []), (2, [7])]
   \<and> nodes_list example_engine (\<lambda>s. s) example_fleet = Inl DoesNotExist
   \<and> (case nodes_list example_engine (\<lambda>s. s)
             (example_fleet\<lparr>last_active_nodes := tl (last_active_nodes example_fleet)\<rparr>) of
        Inl e \<Rightarrow> []
      | Inr sts \<Rightarrow> map status_node_id sts) = [2]"
  by code_simp

end
